theory Spec2Isabelle
  imports Complex_Main "HOL-Library.AList"
begin

section \<open>Data model (types.ts)\<close>

text \<open>
  JavaScript numbers are modelled as real numbers: every comparison and every arithmetic
  step of the source is kept, rounding, infinities and NaN are not.
\<close>

datatype Tool = Pen | Line | Rectangle | Circle | Arrow | Eraser | Text | ObjectEraser
  | Laser | Lasso | Select

datatype LineType = Solid | Dashed

record Point =
  x :: real
  y :: real

text \<open>
  \<open>DrawEvent\<close>: the optional fields are options; the fields \<open>type\<close>, \<open>id\<close> and
  \<open>text\<close> carry the suffix \<open>_el\<close>.
\<close>

record DrawEvent =
  type_el :: string
  tool :: Tool
  color :: string
  lineWidth :: real
  lineType :: LineType
  points :: "Point list"
  timestamp :: real
  id_el :: string
  clientId :: "string option"
  text_el :: "string option"
  fontSize :: "real option"
  imageData :: "string option"
  imageWidth :: "real option"
  imageHeight :: "real option"

text \<open>JavaScript truthiness of an optional string, and \<open>v || d\<close> on an optional number.\<close>

definition truthy :: "string option \<Rightarrow> bool" where
  "truthy s = (case s of None \<Rightarrow> False | Some v \<Rightarrow> v \<noteq> [])"

definition orDefault :: "real option \<Rightarrow> real \<Rightarrow> real" where
  "orDefault n d = (case n of None \<Rightarrow> d | Some v \<Rightarrow> if v = 0 then d else v)"

section \<open>Geometry kernel\<close>

definition distanceToLine :: "Point \<Rightarrow> Point \<Rightarrow> Point \<Rightarrow> real" where
  "distanceToLine point lineStart lineEnd =
    (let A = x point - x lineStart;
         B = y point - y lineStart;
         C = x lineEnd - x lineStart;
         D = y lineEnd - y lineStart;
         dot = A * C + B * D;
         lenSq = C * C + D * D;
         param = (if lenSq \<noteq> 0 then dot / lenSq else - 1);
         xx = (if param < 0 then x lineStart
               else if param > 1 then x lineEnd
               else x lineStart + param * C);
         yy = (if param < 0 then y lineStart
               else if param > 1 then y lineEnd
               else y lineStart + param * D);
         dx = x point - xx;
         dy = y point - yy
     in sqrt (dx * dx + dy * dy))"

text \<open>
  The text metrics of the canvas are outside the program. A 2D context is modelled by its
  \<open>measureText\<close> width, as a function of the font size and the text; \<open>None\<close> is the
  missing canvas or context.
\<close>

type_synonym Context2D = "real \<Rightarrow> string \<Rightarrow> real"

text \<open>
  \<open>isPointNearElement\<close>, in the later version of the component, which reads the active
  tool in the circle branch; the earlier version is the same function without that test.
\<close>

definition isPointNearElement ::
  "Tool \<Rightarrow> Context2D option \<Rightarrow> Point \<Rightarrow> DrawEvent \<Rightarrow> real \<Rightarrow> bool" where
  "isPointNearElement activeTool ctx point element threshold =
    (if truthy (imageData element) then
       (case points element of
          [] \<Rightarrow> False
        | pos # _ \<Rightarrow>
            (let width = orDefault (imageWidth element) 100;
                 height = orDefault (imageHeight element) 100
             in x point \<ge> x pos - threshold \<and>
                x point \<le> x pos + width + threshold \<and>
                y point \<ge> y pos - threshold \<and>
                y point \<le> y pos + height + threshold))
     else if tool element = Text then
       (if \<not> truthy (text_el element) \<or> points element = [] then False
        else case ctx of
          None \<Rightarrow> False
        | Some measureText \<Rightarrow>
            (let fontSize' = orDefault (fontSize element) 24;
                 textWidth = measureText fontSize' (the (text_el element));
                 textHeight = fontSize';
                 pos = hd (points element)
             in x point \<ge> x pos - threshold \<and>
                x point \<le> x pos + textWidth + threshold \<and>
                y point \<ge> y pos - textHeight - threshold \<and>
                y point \<le> y pos + threshold))
     else
       (case points element of
          [] \<Rightarrow> False
        | start # _ \<Rightarrow>
            (if tool element = Pen \<or> tool element = Eraser then
               (\<exists>p \<in> set (points element).
                  sqrt ((x p - x point)\<^sup>2 + (y p - y point)\<^sup>2) < threshold + lineWidth element)
             else if tool element = Line \<or> tool element = Arrow then
               distanceToLine point start (last (points element)) < threshold + lineWidth element
             else if tool element = Rectangle then
               (let end = last (points element);
                    minX = min (x start) (x end);
                    maxX = max (x start) (x end);
                    minY = min (y start) (y end);
                    maxY = max (y start) (y end)
                in x point \<ge> minX - threshold \<and>
                   x point \<le> maxX + threshold \<and>
                   y point \<ge> minY - threshold \<and>
                   y point \<le> maxY + threshold \<and>
                   (x point \<le> minX + threshold \<or> x point \<ge> maxX - threshold \<or>
                    y point \<le> minY + threshold \<or> y point \<ge> maxY - threshold))
             else if tool element = Circle then
               (let center = start;
                    radius = sqrt ((x (last (points element)) - x center)\<^sup>2 +
                                   (y (last (points element)) - y center)\<^sup>2);
                    dist = sqrt ((x point - x center)\<^sup>2 + (y point - y center)\<^sup>2)
                in if activeTool = Select \<or> activeTool = Text then dist \<le> radius + threshold
                   else \<bar>dist - radius\<bar> < threshold + lineWidth element)
             else False)))"

record Bounds =
  minX :: real
  minY :: real
  maxX :: real
  maxY :: real

text \<open>
  \<open>getElementBounds\<close>. The source starts the running minima and maxima at plus and minus
  infinity; the point list is not empty there, so after the first point they are that
  point's coordinates, which is where the fold below starts.
\<close>

definition growBounds :: "Bounds \<Rightarrow> Point \<Rightarrow> Bounds" where
  "growBounds b p =
    \<lparr>minX = min (minX b) (x p), minY = min (minY b) (y p),
     maxX = max (maxX b) (x p), maxY = max (maxY b) (y p)\<rparr>"

definition getElementBounds :: "Context2D option \<Rightarrow> DrawEvent \<Rightarrow> Bounds option" where
  "getElementBounds ctx element =
    (case points element of
       [] \<Rightarrow> None
     | pos # rest \<Rightarrow>
         (if truthy (imageData element) then
            (let width = orDefault (imageWidth element) 100;
                 height = orDefault (imageHeight element) 100
             in Some \<lparr>minX = x pos, minY = y pos, maxX = x pos + width, maxY = y pos + height\<rparr>)
          else if tool element = Text \<and> truthy (text_el element) then
            (case ctx of
               None \<Rightarrow> None
             | Some measureText \<Rightarrow>
                 (let fontSize' = orDefault (fontSize element) 24
                  in Some \<lparr>minX = x pos, minY = y pos - fontSize',
                           maxX = x pos + measureText fontSize' (the (text_el element)),
                           maxY = y pos\<rparr>))
          else
            Some (foldl growBounds
                    \<lparr>minX = x pos, minY = y pos, maxX = x pos, maxY = y pos\<rparr> rest)))"

text \<open>
  \<open>isPointInPolygon\<close>: the loop runs over the vertices in order (\<open>vi\<close>), \<open>vj\<close> being the
  last vertex at first and the previous vertex afterwards.
\<close>

definition intersect :: "Point \<Rightarrow> Point \<Rightarrow> Point \<Rightarrow> bool" where
  "intersect point vi vj =
    (((y vi > y point) \<noteq> (y vj > y point)) \<and>
     x point < (x vj - x vi) * (y point - y vi) / (y vj - y vi) + x vi)"

fun polygonLoop :: "Point \<Rightarrow> Point list \<Rightarrow> Point \<Rightarrow> bool \<Rightarrow> bool" where
  "polygonLoop point [] vj inside = inside"
| "polygonLoop point (vi # rest) vj inside =
     polygonLoop point rest vi (if intersect point vi vj then \<not> inside else inside)"

definition isPointInPolygon :: "Point \<Rightarrow> Point list \<Rightarrow> bool" where
  "isPointInPolygon point polygon =
    (if length polygon < 3 then False
     else polygonLoop point polygon (last polygon) False)"

definition corners :: "Bounds \<Rightarrow> Point list" where
  "corners bounds =
    [\<lparr>x = minX bounds, y = minY bounds\<rparr>,
     \<lparr>x = maxX bounds, y = minY bounds\<rparr>,
     \<lparr>x = minX bounds, y = maxY bounds\<rparr>,
     \<lparr>x = maxX bounds, y = maxY bounds\<rparr>]"

definition isElementInLasso :: "Context2D option \<Rightarrow> DrawEvent \<Rightarrow> Point list \<Rightarrow> bool" where
  "isElementInLasso ctx element lassoPolygon =
    (if length lassoPolygon < 3 then False
     else case getElementBounds ctx element of
       None \<Rightarrow> False
     | Some bounds \<Rightarrow> (\<exists>corner \<in> set (corners bounds). isPointInPolygon corner lassoPolygon))"

subsection \<open>Reference definitions for the lasso test\<close>

text \<open>
  The bounding box and the point-in-polygon test once more, this time after the wording of
  the specification and not after the code, to compare the code with. The box of a
  stroke-like element is the least and greatest coordinate over all its points; the box of
  an image is the rectangle from its anchor with the stored width and height (100 when
  unset); the box of a text element reaches from its anchor by the measured width to the
  right and by the font size upwards; an element without points has no box.
\<close>

definition spec_boundsOf :: "Context2D option \<Rightarrow> DrawEvent \<Rightarrow> Bounds option" where
  "spec_boundsOf ctx el =
    (if points el = [] then None
     else if truthy (imageData el) then
       Some \<lparr>minX = x (hd (points el)), minY = y (hd (points el)),
             maxX = x (hd (points el)) + orDefault (imageWidth el) 100,
             maxY = y (hd (points el)) + orDefault (imageHeight el) 100\<rparr>
     else if tool el = Text \<and> truthy (text_el el) then
       map_option
         (\<lambda>measureText.
            \<lparr>minX = x (hd (points el)),
             minY = y (hd (points el)) - orDefault (fontSize el) 24,
             maxX = x (hd (points el)) +
               measureText (orDefault (fontSize el) 24) (the (text_el el)),
             maxY = y (hd (points el))\<rparr>) ctx
     else
       Some \<lparr>minX = Min (x ` set (points el)), minY = Min (y ` set (points el)),
             maxX = Max (x ` set (points el)), maxY = Max (y ` set (points el))\<rparr>)"

text \<open>
  Ray casting: a polygon's edges join each vertex to the next and the last to the first; the
  ray from the point to the right crosses an edge when the point's height lies between the
  heights of the two ends (lower end included, upper end excluded) and the point is left of
  the edge at that height; the point is inside when the number of edges crossed is odd.
  A polygon of fewer than three vertices has no inside.
\<close>

definition rayCrosses :: "Point \<Rightarrow> Point \<Rightarrow> Point \<Rightarrow> bool" where
  "rayCrosses pt u v =
    (min (y u) (y v) \<le> y pt \<and> y pt < max (y u) (y v) \<and>
     x pt < x u + (y pt - y u) * (x v - x u) / (y v - y u))"

definition polygonEdges :: "Point list \<Rightarrow> (Point \<times> Point) list" where
  "polygonEdges polygon = zip polygon (rotate1 polygon)"

definition spec_pointInPolygon :: "Point \<Rightarrow> Point list \<Rightarrow> bool" where
  "spec_pointInPolygon pt polygon =
    (3 \<le> length polygon \<and>
     odd (length (filter (\<lambda>(u, v). rayCrosses pt u v) (polygonEdges polygon))))"

section \<open>Component state\<close>

datatype BackgroundStyle = Blank | Grid | Dots | Lines

text \<open>\<open>ToolOptions\<close>; its fields carry the prefix \<open>opt_\<close>, apart from \<open>DrawEvent\<close>'s.\<close>

record ToolOptions =
  opt_tool :: Tool
  opt_color :: string
  opt_lineWidth :: real
  opt_lineType :: LineType
  opt_backgroundStyle :: BackgroundStyle

record LaserEntry =
  element :: DrawEvent
  opacity :: real

text \<open>
  The laser map is a JavaScript \<open>Map\<close>: an association list in insertion order, where
  \<open>set\<close> replaces the value of a present key in place and appends an absent one
  (\<open>AList.update\<close>) and \<open>delete\<close> removes the key (\<open>AList.delete\<close>).
\<close>

type_synonym LaserMap = "(string \<times> LaserEntry) list"

text \<open>
  The state hooks and refs of the component that the modelled handlers read or write.
  \<open>lastPinchDistance\<close> and \<open>deletedElements\<close> are the refs \<open>lastPinchDistanceRef\<close>
  and \<open>deletedElementsRef\<close>.
\<close>

record Whiteboard =
  isDrawing :: bool
  currentPoints :: "Point list"
  elements :: "DrawEvent list"
  offset :: Point
  isPanning :: bool
  panStart :: Point
  laserElements :: LaserMap
  zoom :: real
  lastPinchDistance :: "real option"
  deletedElements :: "string set"
  selectedElementIds :: "string set"
  lassoPath :: "Point list"
  isDragging :: bool
  dragStart :: "Point option"

definition initialWhiteboard :: "DrawEvent list \<Rightarrow> Whiteboard" where
  "initialWhiteboard initialElements =
    \<lparr>isDrawing = False, currentPoints = [], elements = initialElements,
     offset = \<lparr>x = 0, y = 0\<rparr>, isPanning = False, panStart = \<lparr>x = 0, y = 0\<rparr>,
     laserElements = [], zoom = 1, lastPinchDistance = None, deletedElements = {},
     selectedElementIds = {}, lassoPath = [], isDragging = False, dragStart = None\<rparr>"

section \<open>Synchronization reconciler\<close>

text \<open>\<open>Array.prototype.findIndex\<close>; \<open>None\<close> is the result - 1.\<close>

fun findIndex :: "('a \<Rightarrow> bool) \<Rightarrow> 'a list \<Rightarrow> nat option" where
  "findIndex P [] = None"
| "findIndex P (a # as) = (if P a then Some 0 else map_option Suc (findIndex P as))"

definition onRemoteDrawEvent :: "DrawEvent \<Rightarrow> Whiteboard \<Rightarrow> Whiteboard" where
  "onRemoteDrawEvent event s =
    (if type_el event = ''laser'' \<or> tool event = Laser then
       s\<lparr>laserElements :=
           AList.update (id_el event) \<lparr>element = event, opacity = 1\<rparr> (laserElements s)\<rparr>
     else
       s\<lparr>elements :=
           (let prev = elements s in
            case findIndex (\<lambda>el. id_el el = id_el event) prev of
              Some existingIndex \<Rightarrow> prev[existingIndex := event]
            | None \<Rightarrow> prev @ [event])\<rparr>)"

definition onRemoteDeleteEvent :: "string \<Rightarrow> Whiteboard \<Rightarrow> Whiteboard" where
  "onRemoteDeleteEvent elementId s =
    s\<lparr>elements := filter (\<lambda>el. id_el el \<noteq> elementId) (elements s)\<rparr>"

definition onClearCanvas :: "Whiteboard \<Rightarrow> Whiteboard" where
  "onClearCanvas s = s\<lparr>elements := []\<rparr>"

definition onUndoCanvas :: "string \<Rightarrow> Whiteboard \<Rightarrow> Whiteboard" where
  "onUndoCanvas elementId s =
    s\<lparr>elements := filter (\<lambda>el. id_el el \<noteq> elementId) (elements s)\<rparr>"

section \<open>Gesture commit\<close>

text \<open>
  \<open>handleMouseUp\<close>, with the clock reading \<open>now\<close> and the fresh id \<open>newId\<close> as
  parameters. The second component lists the events handed to \<open>onDrawEvent\<close>, in order.
\<close>

definition handleMouseUp ::
  "ToolOptions \<Rightarrow> Context2D option \<Rightarrow> real \<Rightarrow> string \<Rightarrow> Whiteboard
    \<Rightarrow> Whiteboard \<times> DrawEvent list" where
  "handleMouseUp options ctx now newId s =
    (if isPanning s then (s\<lparr>isPanning := False\<rparr>, [])
     else if opt_tool options = Lasso \<and> isDragging s then
       (s\<lparr>isDragging := False, dragStart := None\<rparr>,
        filter (\<lambda>el. id_el el \<in> selectedElementIds s) (elements s))
     else if opt_tool options = Lasso \<and> isDrawing s \<and> length (lassoPath s) > 2 then
       (s\<lparr>selectedElementIds :=
             id_el ` set (filter (\<lambda>el. isElementInLasso ctx el (lassoPath s)) (elements s)),
           lassoPath := [], isDrawing := False\<rparr>, [])
     else if opt_tool options = ObjectEraser then
       (s\<lparr>isDrawing := False, deletedElements := {}\<rparr>, [])
     else if \<not> isDrawing s then (s, [])
     else if length (currentPoints s) > 0 then
       (let drawEvent =
              \<lparr>type_el = (if opt_tool options = Laser then ''laser'' else ''draw''),
               tool = opt_tool options,
               color = opt_color options,
               lineWidth = opt_lineWidth options,
               lineType = opt_lineType options,
               points = currentPoints s,
               timestamp = now,
               id_el = newId,
               clientId = None, text_el = None, fontSize = None,
               imageData = None, imageWidth = None, imageHeight = None\<rparr>;
            s1 = (if opt_tool options = Laser then
                    s\<lparr>laserElements :=
                        AList.update (id_el drawEvent) \<lparr>element = drawEvent, opacity = 1\<rparr>
                          (laserElements s)\<rparr>
                  else s\<lparr>elements := elements s @ [drawEvent]\<rparr>)
        in (s1\<lparr>isDrawing := False, currentPoints := []\<rparr>, [drawEvent]))
     else (s\<lparr>isDrawing := False, currentPoints := []\<rparr>, []))"

section \<open>Ephemeral decay scheduler\<close>

definition fadeStart :: real where
  "fadeStart = 1500"

definition fadeDuration :: real where
  "fadeDuration = 1000"

text \<open>
  One callback of the \<open>forEach\<close> in the interval handler: the accumulator is the pair of
  \<open>newMap\<close> and \<open>hasChanges\<close>.
\<close>

definition fadeEntry :: "real \<Rightarrow> LaserMap \<times> bool \<Rightarrow> string \<times> LaserEntry \<Rightarrow> LaserMap \<times> bool" where
  "fadeEntry now acc kv =
    (let newMap = fst acc; hasChanges = snd acc; key = fst kv; val = snd kv;
         age = now - timestamp (element val)
     in if age > fadeStart + fadeDuration then (AList.delete key newMap, True)
        else if age > fadeStart then
          (let fadeProgress = (age - fadeStart) / fadeDuration;
               newOpacity = 1 - fadeProgress
           in if opacity val \<noteq> newOpacity
              then (AList.update key (val\<lparr>opacity := newOpacity\<rparr>) newMap, True)
              else (newMap, hasChanges))
        else (newMap, hasChanges))"

text \<open>
  The state update of one tick at clock reading \<open>now\<close>: the entries visited are those
  of the copied map, each callback changing its own key only. The source reads the clock
  in every callback; the model reads it once for the tick.
\<close>

definition laserFadeTick :: "real \<Rightarrow> LaserMap \<Rightarrow> LaserMap" where
  "laserFadeTick now prev =
    (let r = foldl (fadeEntry now) (prev, False) prev
     in if snd r then fst r else prev)"

definition onLaserFadeTick :: "real \<Rightarrow> Whiteboard \<Rightarrow> Whiteboard" where
  "onLaserFadeTick now s = s\<lparr>laserElements := laserFadeTick now (laserElements s)\<rparr>"

text \<open>The ticks of a run, in the order they fire.\<close>

definition laserFadeRun :: "real list \<Rightarrow> LaserMap \<Rightarrow> LaserMap" where
  "laserFadeRun ticks m = foldl (\<lambda>m' now. laserFadeTick now m') m ticks"

text \<open>
  What one callback leaves under its own key: nothing, the entry with the faded opacity, or
  the entry as it was. Lemma \<open>laserFadeTick_lookup\<close> below proves that a tick leaves
  exactly this under each key.
\<close>

definition fadedEntry :: "real \<Rightarrow> LaserEntry \<Rightarrow> LaserEntry option" where
  "fadedEntry now v =
    (let age = now - timestamp (element v)
     in if age > fadeStart + fadeDuration then None
        else if age > fadeStart
        then Some (v\<lparr>opacity := 1 - (age - fadeStart) / fadeDuration\<rparr>)
        else Some v)"

section \<open>Viewport transform\<close>

text \<open>
  The canvas is known by its bounding client rectangle; \<open>None\<close> is the unmounted canvas
  (\<open>canvasRef.current\<close> is null).
\<close>

record Rect =
  rect_left :: real
  rect_top :: real
  rect_width :: real
  rect_height :: real

text \<open>Screen to world, as \<open>getMousePos\<close> computes it from client coordinates.\<close>

definition getMousePos :: "Rect option \<Rightarrow> real \<Rightarrow> real \<Rightarrow> Whiteboard \<Rightarrow> Point" where
  "getMousePos canvas clientX clientY s =
    (case canvas of
       None \<Rightarrow> \<lparr>x = 0, y = 0\<rparr>
     | Some rect \<Rightarrow>
         \<lparr>x = (clientX - rect_left rect - x (offset s)) / zoom s,
          y = (clientY - rect_top rect - y (offset s)) / zoom s\<rparr>)"

text \<open>
  World to screen, as the redraw effect sets it up: \<open>ctx.translate(offset.x, offset.y)\<close>
  followed by \<open>ctx.scale(zoom, zoom)\<close> puts a world point at this canvas position.
\<close>

definition canvasPosition :: "Whiteboard \<Rightarrow> Point \<Rightarrow> Point" where
  "canvasPosition s w =
    \<lparr>x = x w * zoom s + x (offset s), y = y w * zoom s + y (offset s)\<rparr>"

subsection \<open>Earlier version: mouse wheel and two-finger touch\<close>

definition handleWheel :: "Rect option \<Rightarrow> real \<Rightarrow> real \<Rightarrow> real \<Rightarrow> Whiteboard \<Rightarrow> Whiteboard" where
  "handleWheel canvas clientX clientY deltaY s =
    (case canvas of
       None \<Rightarrow> s
     | Some rect \<Rightarrow>
         (let mouseX = clientX - rect_left rect;
              mouseY = clientY - rect_top rect;
              delta = (if deltaY > 0 then 9 / 10 else 11 / 10);
              newZoom = min (max (1 / 10) (zoom s * delta)) 5;
              scale = newZoom / zoom s
          in s\<lparr>offset := \<lparr>x = mouseX - (mouseX - x (offset s)) * scale,
                          y = mouseY - (mouseY - y (offset s)) * scale\<rparr>,
                zoom := newZoom\<rparr>))"

text \<open>
  \<open>handleTouchMove\<close> on an event with two touches (client coordinates \<open>touch1\<close> and
  \<open>touch2\<close>). The handler calls \<open>setOffset\<close> twice with plain values; the state keeps
  the later one, the pan offset.
\<close>

definition handleTouchMove2 :: "Rect option \<Rightarrow> Point \<Rightarrow> Point \<Rightarrow> Whiteboard \<Rightarrow> Whiteboard" where
  "handleTouchMove2 canvas touch1 touch2 s =
    (if isPanning s then
       (let distance = sqrt ((x touch2 - x touch1)\<^sup>2 + (y touch2 - y touch1)\<^sup>2);
            s1 = (case lastPinchDistance s of
                    None \<Rightarrow> s
                  | Some lastDistance \<Rightarrow>
                      if lastDistance = 0 then s
                      else
                        (let scale = distance / lastDistance;
                             newZoom = min (max (1 / 10) (zoom s * scale)) 5;
                             s2 = (case canvas of
                                     None \<Rightarrow> s
                                   | Some rect \<Rightarrow>
                                       (let centerX = (x touch1 + x touch2) / 2 - rect_left rect;
                                            centerY = (y touch1 + y touch2) / 2 - rect_top rect;
                                            zoomScale = newZoom / zoom s
                                        in s\<lparr>offset :=
                                               \<lparr>x = centerX - (centerX - x (offset s)) * zoomScale,
                                                y = centerY - (centerY - y (offset s)) * zoomScale\<rparr>,
                                             zoom := newZoom\<rparr>))
                         in s2\<lparr>lastPinchDistance := Some distance\<rparr>))
        in s1\<lparr>offset := \<lparr>x = x touch1 - x (panStart s), y = y touch1 - y (panStart s)\<rparr>\<rparr>)
     else s)"

subsection \<open>Later version: pinch and wheel gestures\<close>

record PinchMemo =
  initialZoom :: real
  initialOffset :: Point

text \<open>
  \<open>onPinch\<close> after the first event of a gesture, which only records the memo: \<open>origin\<close>
  is the pinch origin in client coordinates, \<open>ms\<close> the scale movement.
\<close>

definition onPinch :: "Rect option \<Rightarrow> Point \<Rightarrow> real \<Rightarrow> bool \<Rightarrow> PinchMemo \<Rightarrow> Whiteboard \<Rightarrow> Whiteboard" where
  "onPinch canvas origin ms first memo s =
    (case canvas of
       None \<Rightarrow> s
     | Some rect \<Rightarrow>
         if first then s
         else
           (let newZoom = min (max (1 / 10) (initialZoom memo * ms)) 5;
                pinchX = x origin - rect_left rect;
                pinchY = y origin - rect_top rect;
                worldX = (pinchX - x (initialOffset memo)) / initialZoom memo;
                worldY = (pinchY - y (initialOffset memo)) / initialZoom memo;
                newOffsetX = pinchX - worldX * newZoom;
                newOffsetY = pinchY - worldY * newZoom
            in s\<lparr>zoom := newZoom, offset := \<lparr>x = newOffsetX, y = newOffsetY\<rparr>\<rparr>))"

definition onWheel ::
  "Rect option \<Rightarrow> real \<Rightarrow> real \<Rightarrow> real \<Rightarrow> real \<Rightarrow> bool \<Rightarrow> Whiteboard \<Rightarrow> Whiteboard" where
  "onWheel canvas clientX clientY dx dy ctrlKey s =
    (if ctrlKey then
       (case canvas of
          None \<Rightarrow> s
        | Some rect \<Rightarrow>
            (let mouseX = clientX - rect_left rect;
                 mouseY = clientY - rect_top rect;
                 newZoom = min (max (1 / 10) (zoom s * (if dy > 0 then 9 / 10 else 11 / 10))) 5;
                 scale = newZoom / zoom s
             in s\<lparr>offset := \<lparr>x = mouseX - (mouseX - x (offset s)) * scale,
                             y = mouseY - (mouseY - y (offset s)) * scale\<rparr>,
                   zoom := newZoom\<rparr>))
     else s\<lparr>offset := \<lparr>x = x (offset s) - dx, y = y (offset s) - dy\<rparr>\<rparr>)"

subsection \<open>Zoom controls (both versions)\<close>

definition handleZoomChange :: "Rect option \<Rightarrow> real \<Rightarrow> Whiteboard \<Rightarrow> Whiteboard" where
  "handleZoomChange canvas newZoom s =
    (case canvas of
       None \<Rightarrow> s
     | Some rect \<Rightarrow>
         (let centerX = rect_width rect / 2;
              centerY = rect_height rect / 2;
              scale = newZoom / zoom s
          in s\<lparr>offset := \<lparr>x = centerX - (centerX - x (offset s)) * scale,
                          y = centerY - (centerY - y (offset s)) * scale\<rparr>,
                zoom := newZoom\<rparr>))"








section \<open>Sample values\<close>

text \<open>
  An element as the commit paths build it (no text, no image), with the default colour and
  line width of the application's tool options; used for the concrete instances below.
\<close>

definition exampleElement :: "Tool \<Rightarrow> string \<Rightarrow> Point list \<Rightarrow> DrawEvent" where
  "exampleElement t i ps =
    \<lparr>type_el = (if t = Laser then ''laser'' else ''draw''), tool = t, color = ''#000000'',
     lineWidth = 4, lineType = Solid,
     points = ps, timestamp = 0, id_el = i, clientId = None, text_el = None,
     fontSize = None, imageData = None, imageWidth = None, imageHeight = None\<rparr>"

text \<open>A canvas of 800 by 600 at the origin of the client area.\<close>

definition exampleRect :: Rect where
  "exampleRect = \<lparr>rect_left = 0, rect_top = 0, rect_width = 800, rect_height = 600\<rparr>"

text \<open>
  Tool options with the application's defaults, and a state in the middle of a gesture that
  also holds a laser entry created at time 0.
\<close>

definition exampleOptions :: "Tool \<Rightarrow> ToolOptions" where
  "exampleOptions t =
    \<lparr>opt_tool = t, opt_color = ''#000000'', opt_lineWidth = 4, opt_lineType = Solid,
     opt_backgroundStyle = Blank\<rparr>"

definition exampleLaserState :: Whiteboard where
  "exampleLaserState =
    (initialWhiteboard [exampleElement Pen ''a'' [\<lparr>x = 1, y = 1\<rparr>]])
      \<lparr>isDrawing := True, currentPoints := [\<lparr>x = 0, y = 0\<rparr>, \<lparr>x = 4, y = 3\<rparr>],
       laserElements :=
         [(''old'', \<lparr>element = exampleElement Laser ''old'' [\<lparr>x = 2, y = 2\<rparr>], opacity = 1\<rparr>)]\<rparr>"

section \<open>Properties\<close>

text \<open>
  Claim C9. For every point P and every point A, the distance from P to the zero-length
  segment from A to A is the Euclidean distance between P and A: the division by the
  squared length is guarded, and the parameter - 1 chosen instead selects the start point.
\<close>

theorem distanceToLine_degenerate:
  "distanceToLine P A A = sqrt ((x P - x A) * (x P - x A) + (y P - y A) * (y P - y A))"
  by (simp add: distanceToLine_def Let_def)

subsection \<open>Facts about \<open>findIndex\<close>\<close>

lemma findIndex_None: "findIndex P xs = None \<longleftrightarrow> (\<forall>a \<in> set xs. \<not> P a)"
  by (induction xs) auto

lemma findIndex_Some:
  "findIndex P xs = Some i \<Longrightarrow> i < length xs \<and> P (xs ! i) \<and> (\<forall>j < i. \<not> P (xs ! j))"
proof (induction xs arbitrary: i)
  case Nil
  then show ?case by simp
next
  case (Cons a as)
  show ?case
  proof (cases "P a")
    case True
    with Cons.prems show ?thesis by simp
  next
    case False
    with Cons.prems obtain k where k: "findIndex P as = Some k" "i = Suc k"
      by auto
    from Cons.IH[OF k(1)] False k(2) show ?thesis
      by (auto simp: nth_Cons split: nat.splits)
  qed
qed

subsection \<open>Remote draw events: upsert by id\<close>

text \<open>
  Claim C1. For every element list and every inbound draw event that is not a laser event:
  if an element with the event's id is present, the handler replaces the first such element
  in place and the length of the list is unchanged; if no element has that id, the event
  is appended and the length grows by exactly 1.
\<close>

theorem remote_draw_upsert:
  assumes "\<not> (type_el event = ''laser'' \<or> tool event = Laser)"
  shows "((\<exists>el \<in> set (elements s). id_el el = id_el event) \<longrightarrow>
            (\<exists>i < length (elements s).
               id_el (elements s ! i) = id_el event \<and>
               (\<forall>j < i. id_el (elements s ! j) \<noteq> id_el event) \<and>
               elements (onRemoteDrawEvent event s) = (elements s)[i := event]) \<and>
            length (elements (onRemoteDrawEvent event s)) = length (elements s)) \<and>
         ((\<forall>el \<in> set (elements s). id_el el \<noteq> id_el event) \<longrightarrow>
            elements (onRemoteDrawEvent event s) = elements s @ [event] \<and>
            length (elements (onRemoteDrawEvent event s)) = length (elements s) + 1)"
proof (cases "findIndex (\<lambda>el. id_el el = id_el event) (elements s)")
  case None
  then have "\<forall>el \<in> set (elements s). id_el el \<noteq> id_el event"
    by (simp add: findIndex_None)
  with None assms show ?thesis
    by (auto simp: onRemoteDrawEvent_def)
next
  case (Some i)
  from findIndex_Some[OF Some]
  have i: "i < length (elements s)" "id_el (elements s ! i) = id_el event"
    "\<forall>j < i. id_el (elements s ! j) \<noteq> id_el event"
    by auto
  have upd: "elements (onRemoteDrawEvent event s) = (elements s)[i := event]"
    using Some assms by (simp add: onRemoteDrawEvent_def)
  have "\<exists>el \<in> set (elements s). id_el el = id_el event"
    using i(1,2) nth_mem by blast
  with i upd show ?thesis by auto
qed

theorem remote_draw_upsert_witness:
  "\<not> (type_el (exampleElement Text ''a'' [\<lparr>x = 5, y = 5\<rparr>]) = ''laser'' \<or>
      tool (exampleElement Text ''a'' [\<lparr>x = 5, y = 5\<rparr>]) = Laser) \<and>
   elements (onRemoteDrawEvent (exampleElement Text ''a'' [\<lparr>x = 5, y = 5\<rparr>])
      (initialWhiteboard [exampleElement Pen ''b'' [], exampleElement Text ''a'' []])) =
     [exampleElement Pen ''b'' [], exampleElement Text ''a'' [\<lparr>x = 5, y = 5\<rparr>]] \<and>
   elements (onRemoteDrawEvent (exampleElement Text ''a'' [\<lparr>x = 5, y = 5\<rparr>])
      (initialWhiteboard [exampleElement Pen ''b'' []])) =
     [exampleElement Pen ''b'' [], exampleElement Text ''a'' [\<lparr>x = 5, y = 5\<rparr>]]"
  using remote_draw_upsert[of "exampleElement Text ''a'' [\<lparr>x = 5, y = 5\<rparr>]"
          "initialWhiteboard [exampleElement Pen ''b'' [], exampleElement Text ''a'' []]"]
        remote_draw_upsert[of "exampleElement Text ''a'' [\<lparr>x = 5, y = 5\<rparr>]"
          "initialWhiteboard [exampleElement Pen ''b'' []]"]
  by (simp add: exampleElement_def initialWhiteboard_def onRemoteDrawEvent_def)

text \<open>
  Claim C10. The handler preserves the uniqueness of ids: if the ids of the element list are
  pairwise distinct, they are pairwise distinct again after any inbound draw event that is
  not a laser event.
\<close>

theorem remote_draw_distinct_ids:
  assumes "distinct (map id_el (elements s))"
    and "\<not> (type_el event = ''laser'' \<or> tool event = Laser)"
  shows "distinct (map id_el (elements (onRemoteDrawEvent event s)))"
proof (cases "findIndex (\<lambda>el. id_el el = id_el event) (elements s)")
  case None
  then have "id_el event \<notin> set (map id_el (elements s))"
    by (auto simp: findIndex_None)
  with None assms show ?thesis
    by (simp add: onRemoteDrawEvent_def)
next
  case (Some i)
  from findIndex_Some[OF Some]
  have i: "i < length (elements s)" "id_el (elements s ! i) = id_el event"
    by auto
  have "map id_el ((elements s)[i := event]) = (map id_el (elements s))[i := id_el event]"
    by (simp add: map_update)
  also have "\<dots> = map id_el (elements s)"
    using i by (metis list_update_id nth_map)
  finally show ?thesis
    using Some assms by (simp add: onRemoteDrawEvent_def)
qed

theorem remote_draw_distinct_ids_witness:
  "distinct (map id_el (elements (initialWhiteboard
      [exampleElement Pen ''b'' [], exampleElement Text ''a'' []]))) \<and>
   \<not> (type_el (exampleElement Text ''a'' [\<lparr>x = 5, y = 5\<rparr>]) = ''laser'' \<or>
      tool (exampleElement Text ''a'' [\<lparr>x = 5, y = 5\<rparr>]) = Laser) \<and>
   distinct (map id_el (elements (onRemoteDrawEvent (exampleElement Text ''a'' [\<lparr>x = 5, y = 5\<rparr>])
      (initialWhiteboard [exampleElement Pen ''b'' [], exampleElement Text ''a'' []]))))"
  using remote_draw_distinct_ids[of
          "initialWhiteboard [exampleElement Pen ''b'' [], exampleElement Text ''a'' []]"
          "exampleElement Text ''a'' [\<lparr>x = 5, y = 5\<rparr>]"]
  by (simp add: exampleElement_def initialWhiteboard_def)

subsection \<open>Clear\<close>

text \<open>
  Claim C4, as the code has it. The clear handler empties the element list and nothing
  else: the selection set and the lasso path are what they were before the event.
\<close>

theorem clear_keeps_selection_and_lasso:
  "elements (onClearCanvas s) = [] \<and>
   selectedElementIds (onClearCanvas s) = selectedElementIds s \<and>
   lassoPath (onClearCanvas s) = lassoPath s"
  by (simp add: onClearCanvas_def)

text \<open>
  The claim as stated fails: a selection made before the clear event is still there after
  it, and so is a lasso path under way.
\<close>

theorem clear_drops_selection_counterexample:
  "selectedElementIds (onClearCanvas
      ((initialWhiteboard [exampleElement Pen ''a'' [\<lparr>x = 1, y = 1\<rparr>]])
         \<lparr>selectedElementIds := {''a''}\<rparr>)) \<noteq> {} \<and>
   lassoPath (onClearCanvas
      ((initialWhiteboard [exampleElement Pen ''a'' [\<lparr>x = 1, y = 1\<rparr>]])
         \<lparr>isDrawing := True, lassoPath := [\<lparr>x = 0, y = 0\<rparr>, \<lparr>x = 3, y = 0\<rparr>]\<rparr>)) \<noteq> []"
  by (simp add: onClearCanvas_def initialWhiteboard_def)

subsection \<open>Hit-test of a rectangle\<close>

text \<open>
  Claim C6. For every rectangle element (tool rectangle, no image payload) and every query
  point strictly inside the box spanned by its first and last point and more than
  \<open>threshold\<close> away from each of the four edges, the hit-test is false, whatever the
  active tool.
\<close>

theorem rectangle_interior_not_hit:
  assumes "tool el = Rectangle"
    and "\<not> truthy (imageData el)"
    and "points el \<noteq> []"
    and "min (x (hd (points el))) (x (last (points el))) < x pt"
    and "x pt < max (x (hd (points el))) (x (last (points el)))"
    and "min (y (hd (points el))) (y (last (points el))) < y pt"
    and "y pt < max (y (hd (points el))) (y (last (points el)))"
    and "x pt - min (x (hd (points el))) (x (last (points el))) > threshold"
    and "max (x (hd (points el))) (x (last (points el))) - x pt > threshold"
    and "y pt - min (y (hd (points el))) (y (last (points el))) > threshold"
    and "max (y (hd (points el))) (y (last (points el))) - y pt > threshold"
  shows "\<not> isPointNearElement activeTool ctx pt el threshold"
proof -
  obtain start rest where ps: "points el = start # rest"
    using assms(3) by (cases "points el") auto
  have hd: "hd (points el) = start"
    by (simp add: ps)
  show ?thesis
    using assms(1,2,8-11) unfolding isPointNearElement_def ps[symmetric] hd
    by (simp add: ps Let_def)
qed

theorem rectangle_interior_not_hit_witness:
  "tool (exampleElement Rectangle ''r'' [\<lparr>x = 0, y = 0\<rparr>, \<lparr>x = 100, y = 100\<rparr>]) = Rectangle \<and>
   (50 :: real) - min 0 100 > 15 \<and> max 0 100 - (50 :: real) > 15 \<and>
   \<not> isPointNearElement ObjectEraser None \<lparr>x = 50, y = 50\<rparr>
       (exampleElement Rectangle ''r'' [\<lparr>x = 0, y = 0\<rparr>, \<lparr>x = 100, y = 100\<rparr>]) 15"
  using rectangle_interior_not_hit[of
      "exampleElement Rectangle ''r'' [\<lparr>x = 0, y = 0\<rparr>, \<lparr>x = 100, y = 100\<rparr>]"
      "\<lparr>x = 50, y = 50\<rparr>" 15 ObjectEraser None]
  by (simp add: exampleElement_def truthy_def)

subsection \<open>Lasso selection\<close>

lemma polygonLoop_all_below:
  assumes "\<forall>v \<in> set vs. y v < y pt" and "y vj < y pt"
  shows "polygonLoop pt vs vj inside = inside"
  using assms
proof (induction vs arbitrary: vj inside)
  case Nil
  then show ?case by simp
next
  case (Cons v vs)
  then have "\<not> intersect pt v vj"
    by (simp add: intersect_def)
  with Cons show ?case by simp
qed

lemma polygonLoop_all_above:
  assumes "\<forall>v \<in> set vs. y pt < y v" and "y pt < y vj"
  shows "polygonLoop pt vs vj inside = inside"
  using assms
proof (induction vs arbitrary: vj inside)
  case Nil
  then show ?case by simp
next
  case (Cons v vs)
  then have "\<not> intersect pt v vj"
    by (simp add: intersect_def)
  with Cons show ?case by simp
qed

lemma not_in_polygon_below:
  assumes "\<forall>v \<in> set polygon. y pt < y v"
  shows "\<not> isPointInPolygon pt polygon"
proof (cases "length polygon < 3")
  case True
  then show ?thesis by (simp add: isPointInPolygon_def)
next
  case False
  then have "polygon \<noteq> []" by auto
  then have "y pt < y (last polygon)"
    using assms last_in_set by blast
  with assms show ?thesis
    by (simp add: isPointInPolygon_def polygonLoop_all_above)
qed

lemma not_in_polygon_above:
  assumes "\<forall>v \<in> set polygon. y v < y pt"
  shows "\<not> isPointInPolygon pt polygon"
proof (cases "length polygon < 3")
  case True
  then show ?thesis by (simp add: isPointInPolygon_def)
next
  case False
  then have "polygon \<noteq> []" by auto
  then have "y (last polygon) < y pt"
    using assms last_in_set by blast
  with assms show ?thesis
    by (simp add: isPointInPolygon_def polygonLoop_all_below)
qed

text \<open>
  The code's bounds and point-in-polygon test are the reference ones, and a point strictly
  inside a triangle that is not degenerate (a combination of its vertices with positive
  weights of sum 1) passes the code's test.
\<close>

lemma intersect_sym: "intersect pt u v = intersect pt v u"
proof (cases "y u = y v")
  case True
  then show ?thesis by (simp add: intersect_def)
next
  case False
  then have "(x v - x u) * (y pt - y u) / (y v - y u) + x u =
      (x u - x v) * (y pt - y v) / (y u - y v) + x v"
    by (simp add: field_simps)
  then show ?thesis by (auto simp: intersect_def)
qed

lemma crossing_offsets:
  fixes x1 y1 x2 y2 x3 y3 a b c px py :: real
  assumes "a + b + c = 1"
    and "px = a * x1 + b * x2 + c * x3" and "py = a * y1 + b * y2 + c * y3"
    and "y2 \<noteq> y1" and "y3 \<noteq> y1"
  shows "px - ((x2 - x1) * (py - y1) / (y2 - y1) + x1) =
           - (c * ((x2 - x1) * (y3 - y1) - (x3 - x1) * (y2 - y1))) / (y2 - y1)"
    and "px - ((x3 - x1) * (py - y1) / (y3 - y1) + x1) =
           b * ((x2 - x1) * (y3 - y1) - (x3 - x1) * (y2 - y1)) / (y3 - y1)"
proof -
  have a: "a = 1 - b - c" using assms(1) by simp
  show "px - ((x2 - x1) * (py - y1) / (y2 - y1) + x1) =
           - (c * ((x2 - x1) * (y3 - y1) - (x3 - x1) * (y2 - y1))) / (y2 - y1)"
    using assms(4) unfolding assms(2,3) a by (simp add: field_simps)
  show "px - ((x3 - x1) * (py - y1) / (y3 - y1) + x1) =
           b * ((x2 - x1) * (y3 - y1) - (x3 - x1) * (y2 - y1)) / (y3 - y1)"
    using assms(5) unfolding assms(2,3) a by (simp add: field_simps)
qed

lemma opposite_sides:
  fixes b c d p q :: real
  assumes "(p > 0 \<and> q > 0) \<or> (p < 0 \<and> q < 0)" and "0 < b" and "0 < c" and "d \<noteq> 0"
  shows "(- (c * d) / p < 0) \<noteq> (b * d / q < 0)"
proof -
  have cd: "c * d > 0 \<longleftrightarrow> d > 0" "c * d < 0 \<longleftrightarrow> d < 0"
    using assms(3) by (simp_all add: zero_less_mult_iff mult_less_0_iff)
  have bd: "b * d > 0 \<longleftrightarrow> d > 0" "b * d < 0 \<longleftrightarrow> d < 0"
    using assms(2) by (simp_all add: zero_less_mult_iff mult_less_0_iff)
  from assms(1) show ?thesis
  proof
    assume "p > 0 \<and> q > 0"
    then have "(- (c * d) / p < 0) \<longleftrightarrow> d > 0" "(b * d / q < 0) \<longleftrightarrow> d < 0"
      using cd bd by (simp_all add: divide_less_0_iff zero_less_divide_iff)
    with assms(4) show ?thesis by auto
  next
    assume "p < 0 \<and> q < 0"
    then have "(- (c * d) / p < 0) \<longleftrightarrow> d < 0" "(b * d / q < 0) \<longleftrightarrow> d > 0"
      using cd bd by (simp_all add: divide_less_0_iff zero_less_divide_iff)
    with assms(4) show ?thesis by auto
  qed
qed

lemma lone_vertex:
  fixes a b c :: real
  assumes w: "0 < a" "0 < b" "0 < c" "a + b + c = 1"
    and px: "x pt = a * x V + b * x U + c * x W"
    and py: "y pt = a * y V + b * y U + c * y W"
    and D: "(x U - x V) * (y W - y V) - (x W - x V) * (y U - y V) \<noteq> 0"
    and sU: "(y V > y pt) \<noteq> (y U > y pt)"
    and sW: "(y V > y pt) \<noteq> (y W > y pt)"
  shows "intersect pt V U \<noteq> intersect pt V W"
proof -
  let ?D = "(x U - x V) * (y W - y V) - (x W - x V) * (y U - y V)"
  have ne: "y U \<noteq> y V" "y W \<noteq> y V"
    using sU sW by auto
  have same: "(y U - y V > 0 \<and> y W - y V > 0) \<or> (y U - y V < 0 \<and> y W - y V < 0)"
    using sU sW by auto
  note off = crossing_offsets[OF w(4) px py ne]
  have iU: "intersect pt V U \<longleftrightarrow> - (c * ?D) / (y U - y V) < 0"
  proof -
    have "intersect pt V U \<longleftrightarrow>
        x pt - ((x U - x V) * (y pt - y V) / (y U - y V) + x V) < 0"
      using sU by (auto simp: intersect_def)
    then show ?thesis by (simp only: off(1))
  qed
  have iW: "intersect pt V W \<longleftrightarrow> b * ?D / (y W - y V) < 0"
  proof -
    have "intersect pt V W \<longleftrightarrow>
        x pt - ((x W - x V) * (y pt - y V) / (y W - y V) + x V) < 0"
      using sW by (auto simp: intersect_def)
    then show ?thesis by (simp only: off(2))
  qed
  from same w(2,3) D show ?thesis
    unfolding iU iW by (rule opposite_sides)
qed

lemma point_in_triangle:
  fixes a b c :: real
  assumes w: "0 < a" "0 < b" "0 < c" "a + b + c = 1"
    and px: "x pt = a * x A + b * x B + c * x C"
    and py: "y pt = a * y A + b * y B + c * y C"
    and D: "(x B - x A) * (y C - y A) - (x C - x A) * (y B - y A) \<noteq> 0"
  shows "isPointInPolygon pt [A, B, C]"
proof -
  have loop: "isPointInPolygon pt [A, B, C] \<longleftrightarrow>
      ((intersect pt A C \<noteq> intersect pt B A) \<noteq> intersect pt C B)"
    by (auto simp: isPointInPolygon_def)
  have zero: "a * (y A - y pt) + b * (y B - y pt) + c * (y C - y pt) = 0"
  proof -
    have "a * (y A - y pt) + b * (y B - y pt) + c * (y C - y pt) =
        (a * y A + b * y B + c * y C) - (a + b + c) * y pt"
      by (simp add: algebra_simps)
    then show ?thesis using py w(4) by simp
  qed
  have not_all_above: "\<not> (y A > y pt \<and> y B > y pt \<and> y C > y pt)"
  proof
    assume h: "y A > y pt \<and> y B > y pt \<and> y C > y pt"
    then have "a * (y A - y pt) > 0" "b * (y B - y pt) > 0" "c * (y C - y pt) > 0"
      using w by simp_all
    with zero show False by linarith
  qed
  have not_all_below: "\<not> (y A \<le> y pt \<and> y B \<le> y pt \<and> y C \<le> y pt)"
  proof
    assume h: "y A \<le> y pt \<and> y B \<le> y pt \<and> y C \<le> y pt"
    then have le: "a * (y A - y pt) \<le> 0" "b * (y B - y pt) \<le> 0" "c * (y C - y pt) \<le> 0"
      using w by (simp_all add: mult_le_0_iff)
    with zero have "a * (y A - y pt) = 0" "b * (y B - y pt) = 0" "c * (y C - y pt) = 0"
      by linarith+
    with w have "y A = y pt" "y B = y pt" "y C = y pt"
      by simp_all
    with D show False by simp
  qed
  have DB: "(x A - x B) * (y C - y B) - (x C - x B) * (y A - y B) \<noteq> 0"
  proof -
    have "(x A - x B) * (y C - y B) - (x C - x B) * (y A - y B) =
        - ((x B - x A) * (y C - y A) - (x C - x A) * (y B - y A))"
      by (simp add: algebra_simps)
    with D show ?thesis by simp
  qed
  have DC: "(x A - x C) * (y B - y C) - (x B - x C) * (y A - y C) \<noteq> 0"
  proof -
    have "(x A - x C) * (y B - y C) - (x B - x C) * (y A - y C) =
        (x B - x A) * (y C - y A) - (x C - x A) * (y B - y A)"
      by (simp add: algebra_simps)
    with D show ?thesis by simp
  qed
  consider
      (loneA) "(y A > y pt) \<noteq> (y B > y pt)" "(y A > y pt) \<noteq> (y C > y pt)"
    | (loneB) "(y B > y pt) \<noteq> (y A > y pt)" "(y B > y pt) \<noteq> (y C > y pt)"
    | (loneC) "(y C > y pt) \<noteq> (y A > y pt)" "(y C > y pt) \<noteq> (y B > y pt)"
    using not_all_above not_all_below by (cases "y A > y pt"; cases "y B > y pt"; cases "y C > y pt") auto
  then show ?thesis
  proof cases
    case loneA
    then have "\<not> intersect pt C B"
      by (auto simp: intersect_def)
    moreover have "intersect pt A B \<noteq> intersect pt A C"
      using lone_vertex[OF w px py D loneA] .
    ultimately show ?thesis
      unfolding loop intersect_sym[of pt B A] by auto
  next
    case loneB
    then have "\<not> intersect pt A C"
      by (auto simp: intersect_def)
    moreover have "intersect pt B A \<noteq> intersect pt B C"
    proof (rule lone_vertex[OF w(2,1,3) _ _ _ DB loneB])
      show "b + a + c = 1" using w(4) by simp
      show "x pt = b * x B + a * x A + c * x C" using px by simp
      show "y pt = b * y B + a * y A + c * y C" using py by simp
    qed
    ultimately show ?thesis
      unfolding loop intersect_sym[of pt C B] by auto
  next
    case loneC
    then have "\<not> intersect pt B A"
      by (auto simp: intersect_def)
    moreover have "intersect pt C A \<noteq> intersect pt C B"
    proof (rule lone_vertex[OF w(3,1,2) _ _ _ DC loneC])
      show "c + a + b = 1" using w(4) by simp
      show "x pt = c * x C + a * x A + b * x B" using px by simp
      show "y pt = c * y C + a * y A + b * y B" using py by simp
    qed
    ultimately show ?thesis
      unfolding loop intersect_sym[of pt A C] by auto
  qed
qed

lemma foldl_growBounds:
  "minX (foldl growBounds b ps) = fold min (map x ps) (minX b)"
  "minY (foldl growBounds b ps) = fold min (map y ps) (minY b)"
  "maxX (foldl growBounds b ps) = fold max (map x ps) (maxX b)"
  "maxY (foldl growBounds b ps) = fold max (map y ps) (maxY b)"
  by (induction ps arbitrary: b) (simp_all add: growBounds_def min.commute max.commute)

lemma foldl_growBounds_eq:
  "foldl growBounds \<lparr>minX = x p, minY = y p, maxX = x p, maxY = y p\<rparr> ps =
     \<lparr>minX = Min (x ` set (p # ps)), minY = Min (y ` set (p # ps)),
      maxX = Max (x ` set (p # ps)), maxY = Max (y ` set (p # ps))\<rparr>"
proof -
  have "Min (x ` set (p # ps)) = fold min (map x ps) (x p)"
    "Min (y ` set (p # ps)) = fold min (map y ps) (y p)"
    "Max (x ` set (p # ps)) = fold max (map x ps) (x p)"
    "Max (y ` set (p # ps)) = fold max (map y ps) (y p)"
    using Min.set_eq_fold[of "x p" "map x ps"] Min.set_eq_fold[of "y p" "map y ps"]
      Max.set_eq_fold[of "x p" "map x ps"] Max.set_eq_fold[of "y p" "map y ps"]
    by simp_all
  then show ?thesis
    by (intro Bounds.equality) (simp_all add: foldl_growBounds)
qed

lemma getElementBounds_spec: "getElementBounds ctx el = spec_boundsOf ctx el"
proof (cases "points el")
  case Nil
  then show ?thesis by (simp add: getElementBounds_def spec_boundsOf_def)
next
  case (Cons p ps)
  then show ?thesis
    using foldl_growBounds_eq[of p ps]
    by (simp add: getElementBounds_def spec_boundsOf_def Let_def split: option.splits)
qed

lemma intersect_rayCrosses: "intersect pt vi vj = rayCrosses pt vj vi"
proof -
  have "intersect pt vi vj = intersect pt vj vi"
    by (rule intersect_sym)
  also have "\<dots> = rayCrosses pt vj vi"
    by (auto simp: intersect_def rayCrosses_def algebra_simps)
  finally show ?thesis .
qed

lemma polygonLoop_parity:
  "polygonLoop pt vs vj inside =
     (inside \<noteq> odd (length (filter (\<lambda>(u, v). rayCrosses pt u v) (zip (vj # vs) vs))))"
proof (induction vs arbitrary: vj inside)
  case Nil
  then show ?case by simp
next
  case (Cons v vs)
  show ?case
    by (simp add: Cons.IH intersect_rayCrosses) blast
qed

lemma zip_successors:
  "ps \<noteq> [] \<Longrightarrow> zip ps (tl ps @ [a]) = zip ps (tl ps) @ [(last ps, a)]"
proof (induction ps)
  case Nil
  then show ?case by simp
next
  case (Cons p ps)
  then show ?case by (cases ps) simp_all
qed

lemma isPointInPolygon_spec: "isPointInPolygon pt polygon = spec_pointInPolygon pt polygon"
proof (cases polygon)
  case Nil
  then show ?thesis by (simp add: isPointInPolygon_def spec_pointInPolygon_def)
next
  case (Cons p ps)
  have edges: "polygonEdges (p # ps) = zip (p # ps) ps @ [(last (p # ps), p)]"
    using zip_successors[of "p # ps" p] by (simp add: polygonEdges_def)
  have pairs: "zip (last (p # ps) # p # ps) (p # ps) = (last (p # ps), p) # zip (p # ps) ps"
    by simp
  show ?thesis
    unfolding Cons isPointInPolygon_def spec_pointInPolygon_def polygonLoop_parity edges pairs
    by auto
qed

text \<open>
  Claim C5. For every element and every lasso polygon with at least 3 vertices, the element
  is selected if and only if it has a bounding box and at least one of the four corners of
  the box is inside the polygon, box and inside being the reference ones. An element whose
  box strictly contains every vertex of the polygon is not selected. An element one of
  whose box corners is strictly inside a triangular lasso is selected, in particular a
  rectangle that is fully inside the triangle.
\<close>

theorem lasso_corner_selection:
  assumes "3 \<le> length lassoPolygon"
  shows "(isElementInLasso ctx el lassoPolygon \<longleftrightarrow>
           (\<exists>bounds. spec_boundsOf ctx el = Some bounds \<and>
              (spec_pointInPolygon \<lparr>x = minX bounds, y = minY bounds\<rparr> lassoPolygon \<or>
               spec_pointInPolygon \<lparr>x = maxX bounds, y = minY bounds\<rparr> lassoPolygon \<or>
               spec_pointInPolygon \<lparr>x = minX bounds, y = maxY bounds\<rparr> lassoPolygon \<or>
               spec_pointInPolygon \<lparr>x = maxX bounds, y = maxY bounds\<rparr> lassoPolygon))) \<and>
         (\<forall>bounds. spec_boundsOf ctx el = Some bounds \<and>
              (\<forall>v \<in> set lassoPolygon.
                  minX bounds < x v \<and> x v < maxX bounds \<and>
                  minY bounds < y v \<and> y v < maxY bounds) \<longrightarrow>
              \<not> isElementInLasso ctx el lassoPolygon) \<and>
         (\<forall>bounds corner A B C a b c.
              spec_boundsOf ctx el = Some bounds \<and>
              (corner = \<lparr>x = minX bounds, y = minY bounds\<rparr> \<or>
               corner = \<lparr>x = maxX bounds, y = minY bounds\<rparr> \<or>
               corner = \<lparr>x = minX bounds, y = maxY bounds\<rparr> \<or>
               corner = \<lparr>x = maxX bounds, y = maxY bounds\<rparr>) \<and>
              0 < a \<and> 0 < b \<and> 0 < c \<and> a + b + c = 1 \<and>
              x corner = a * x A + b * x B + c * x C \<and>
              y corner = a * y A + b * y B + c * y C \<and>
              (x B - x A) * (y C - y A) - (x C - x A) * (y B - y A) \<noteq> 0 \<longrightarrow>
              isElementInLasso ctx el [A, B, C])"
proof (intro conjI allI impI)
  show "isElementInLasso ctx el lassoPolygon \<longleftrightarrow>
           (\<exists>bounds. spec_boundsOf ctx el = Some bounds \<and>
              (spec_pointInPolygon \<lparr>x = minX bounds, y = minY bounds\<rparr> lassoPolygon \<or>
               spec_pointInPolygon \<lparr>x = maxX bounds, y = minY bounds\<rparr> lassoPolygon \<or>
               spec_pointInPolygon \<lparr>x = minX bounds, y = maxY bounds\<rparr> lassoPolygon \<or>
               spec_pointInPolygon \<lparr>x = maxX bounds, y = maxY bounds\<rparr> lassoPolygon))"
    using assms
    by (auto simp: isElementInLasso_def corners_def getElementBounds_spec isPointInPolygon_spec
        split: option.splits)
next
  fix bounds
  assume b: "spec_boundsOf ctx el = Some bounds \<and>
              (\<forall>v \<in> set lassoPolygon.
                  minX bounds < x v \<and> x v < maxX bounds \<and>
                  minY bounds < y v \<and> y v < maxY bounds)"
  have low: "\<not> isPointInPolygon \<lparr>x = cx, y = minY bounds\<rparr> lassoPolygon" for cx
    using b by (intro not_in_polygon_below) simp
  have high: "\<not> isPointInPolygon \<lparr>x = cx, y = maxY bounds\<rparr> lassoPolygon" for cx
    using b by (intro not_in_polygon_above) simp
  show "\<not> isElementInLasso ctx el lassoPolygon"
    using b low high by (simp add: isElementInLasso_def corners_def getElementBounds_spec)
next
  fix bounds :: Bounds and corner A B C :: Point and a b c :: real
  assume h: "spec_boundsOf ctx el = Some bounds \<and>
              (corner = \<lparr>x = minX bounds, y = minY bounds\<rparr> \<or>
               corner = \<lparr>x = maxX bounds, y = minY bounds\<rparr> \<or>
               corner = \<lparr>x = minX bounds, y = maxY bounds\<rparr> \<or>
               corner = \<lparr>x = maxX bounds, y = maxY bounds\<rparr>) \<and>
              0 < a \<and> 0 < b \<and> 0 < c \<and> a + b + c = 1 \<and>
              x corner = a * x A + b * x B + c * x C \<and>
              y corner = a * y A + b * y B + c * y C \<and>
              (x B - x A) * (y C - y A) - (x C - x A) * (y B - y A) \<noteq> 0"
  then have "isPointInPolygon corner [A, B, C]"
    by (intro point_in_triangle[of a b c]) simp_all
  moreover have "corner \<in> set (corners bounds)"
    using h by (auto simp: corners_def)
  ultimately show "isElementInLasso ctx el [A, B, C]"
    using h by (auto simp: isElementInLasso_def getElementBounds_spec)
qed

theorem lasso_corner_selection_witness:
  "3 \<le> length [\<lparr>x = 0, y = 0\<rparr>, \<lparr>x = 10, y = 0\<rparr>, \<lparr>x = 0, y = 10 :: real\<rparr>] \<and>
   spec_boundsOf None
      (exampleElement Rectangle ''big'' [\<lparr>x = 20, y = - 5\<rparr>, \<lparr>x = - 5, y = 20\<rparr>]) =
     Some \<lparr>minX = - 5, minY = - 5, maxX = 20, maxY = 20\<rparr> \<and>
   \<not> isElementInLasso None
      (exampleElement Rectangle ''big'' [\<lparr>x = 20, y = - 5\<rparr>, \<lparr>x = - 5, y = 20\<rparr>])
      [\<lparr>x = 0, y = 0\<rparr>, \<lparr>x = 10, y = 0\<rparr>, \<lparr>x = 0, y = 10\<rparr>] \<and>
   spec_boundsOf None
      (exampleElement Rectangle ''r'' [\<lparr>x = 2, y = 2\<rparr>, \<lparr>x = 3, y = 3\<rparr>]) =
     Some \<lparr>minX = 2, minY = 2, maxX = 3, maxY = 3\<rparr> \<and>
   (2 :: real) = 6 / 10 * 0 + 2 / 10 * 10 + 2 / 10 * 0 \<and>
   isElementInLasso None
      (exampleElement Rectangle ''r'' [\<lparr>x = 2, y = 2\<rparr>, \<lparr>x = 3, y = 3\<rparr>])
      [\<lparr>x = 0, y = 0\<rparr>, \<lparr>x = 10, y = 0\<rparr>, \<lparr>x = 0, y = 10\<rparr>]"
proof -
  let ?tri = "[\<lparr>x = 0, y = 0\<rparr>, \<lparr>x = 10, y = 0\<rparr>, \<lparr>x = 0, y = 10 :: real\<rparr>]"
  let ?big = "exampleElement Rectangle ''big'' [\<lparr>x = 20, y = - 5\<rparr>, \<lparr>x = - 5, y = 20\<rparr>]"
  let ?small = "exampleElement Rectangle ''r'' [\<lparr>x = 2, y = 2\<rparr>, \<lparr>x = 3, y = 3\<rparr>]"
  let ?b = "\<lparr>minX = - 5, minY = - 5, maxX = 20, maxY = 20 :: real\<rparr>"
  let ?sb = "\<lparr>minX = 2, minY = 2, maxX = 3, maxY = 3 :: real\<rparr>"
  have len: "3 \<le> length ?tri" by simp
  have b: "spec_boundsOf None ?big = Some ?b"
    by (simp add: spec_boundsOf_def exampleElement_def truthy_def)
  have sb: "spec_boundsOf None ?small = Some ?sb"
    by (simp add: spec_boundsOf_def exampleElement_def truthy_def)
  have inside: "\<forall>v \<in> set ?tri. minX ?b < x v \<and> x v < maxX ?b \<and> minY ?b < y v \<and> y v < maxY ?b"
    by simp
  note big = lasso_corner_selection[OF len, of None ?big]
  note small = lasso_corner_selection[OF len, of None ?small]
  from big have "spec_boundsOf None ?big = Some ?b \<and>
      (\<forall>v \<in> set ?tri. minX ?b < x v \<and> x v < maxX ?b \<and> minY ?b < y v \<and> y v < maxY ?b)
      \<longrightarrow> \<not> isElementInLasso None ?big ?tri"
    by blast
  with b inside have out: "\<not> isElementInLasso None ?big ?tri"
    by blast
  have comb: "(2 :: real) = 6 / 10 * 0 + 2 / 10 * 10 + 2 / 10 * 0"
    by simp
  from small have tri: "spec_boundsOf None ?small = Some ?sb \<and>
      (\<lparr>x = 2, y = 2\<rparr> = \<lparr>x = minX ?sb, y = minY ?sb\<rparr> \<or>
       \<lparr>x = 2, y = 2\<rparr> = \<lparr>x = maxX ?sb, y = minY ?sb\<rparr> \<or>
       \<lparr>x = 2, y = 2\<rparr> = \<lparr>x = minX ?sb, y = maxY ?sb\<rparr> \<or>
       \<lparr>x = 2, y = 2\<rparr> = \<lparr>x = maxX ?sb, y = maxY ?sb\<rparr>) \<and>
      (0 :: real) < 6 / 10 \<and> (0 :: real) < 2 / 10 \<and> (0 :: real) < 2 / 10 \<and>
      (6 / 10 + 2 / 10 + 2 / 10 :: real) = 1 \<and>
      x \<lparr>x = 2, y = 2 :: real\<rparr> = 6 / 10 * x \<lparr>x = 0, y = 0 :: real\<rparr> +
        2 / 10 * x \<lparr>x = 10, y = 0 :: real\<rparr> + 2 / 10 * x \<lparr>x = 0, y = 10 :: real\<rparr> \<and>
      y \<lparr>x = 2, y = 2 :: real\<rparr> = 6 / 10 * y \<lparr>x = 0, y = 0 :: real\<rparr> +
        2 / 10 * y \<lparr>x = 10, y = 0 :: real\<rparr> + 2 / 10 * y \<lparr>x = 0, y = 10 :: real\<rparr> \<and>
      (x \<lparr>x = 10, y = 0 :: real\<rparr> - x \<lparr>x = 0, y = 0 :: real\<rparr>) *
        (y \<lparr>x = 0, y = 10 :: real\<rparr> - y \<lparr>x = 0, y = 0 :: real\<rparr>) -
      (x \<lparr>x = 0, y = 10 :: real\<rparr> - x \<lparr>x = 0, y = 0 :: real\<rparr>) *
        (y \<lparr>x = 10, y = 0 :: real\<rparr> - y \<lparr>x = 0, y = 0 :: real\<rparr>) \<noteq> 0
      \<longrightarrow> isElementInLasso None ?small ?tri"
    by blast
  have sel: "isElementInLasso None ?small ?tri"
    by (rule tri[rule_format]) (simp add: sb)
  from len b out sb comb sel show ?thesis by blast
qed

subsection \<open>Zoom clamp\<close>


lemma clamp_bounds:
  "1 / 10 \<le> min (max (1 / 10) a) (5 :: real)" "min (max (1 / 10) a) (5 :: real) \<le> 5"
  by (auto simp: min_def max_def)

lemma clamp_nonzero: "min (max (1 / 10) a) (5 :: real) \<noteq> 0"
  using clamp_bounds(1)[of a] by linarith



















subsection \<open>Zoom toward an anchor\<close>

text \<open>
  Claim C7. With the offset recomputed as anchor - (anchor - offset) * (newZoom / zoom), the
  world point under the screen anchor before the zoom is drawn at the anchor after it, for
  every anchor, every old viewport (its zoom is not 0) and every new zoom, and it is still
  the world point under the anchor when the new zoom is not 0. This holds for
  \<open>handleZoomChange\<close> (anchor: the centre of the canvas), for \<open>handleWheel\<close> and the wheel
  gesture (anchor: the pointer) and for \<open>onPinch\<close>, whose old viewport is the one the
  gesture recorded at its start (anchor: the pinch origin); in particular for the initial viewport, offset
  (0, 0) and zoom 1, and the new zoom 2.
\<close>

theorem zoom_anchor_fixed:
  assumes "zoom s \<noteq> 0"
  shows
    "canvasPosition (handleZoomChange (Some rect) newZoom s)
        (getMousePos (Some rect) (rect_left rect + rect_width rect / 2)
           (rect_top rect + rect_height rect / 2) s) =
       \<lparr>x = rect_width rect / 2, y = rect_height rect / 2\<rparr> \<and>
     (newZoom \<noteq> 0 \<longrightarrow>
        getMousePos (Some rect) (rect_left rect + rect_width rect / 2)
           (rect_top rect + rect_height rect / 2) (handleZoomChange (Some rect) newZoom s) =
        getMousePos (Some rect) (rect_left rect + rect_width rect / 2)
           (rect_top rect + rect_height rect / 2) s) \<and>
     canvasPosition (handleWheel (Some rect) clientX clientY deltaY s)
        (getMousePos (Some rect) clientX clientY s) =
       \<lparr>x = clientX - rect_left rect, y = clientY - rect_top rect\<rparr> \<and>
     getMousePos (Some rect) clientX clientY (handleWheel (Some rect) clientX clientY deltaY s) =
       getMousePos (Some rect) clientX clientY s \<and>
     canvasPosition (onWheel (Some rect) clientX clientY dx dy True s)
        (getMousePos (Some rect) clientX clientY s) =
       \<lparr>x = clientX - rect_left rect, y = clientY - rect_top rect\<rparr> \<and>
     (initialZoom memo \<noteq> 0 \<longrightarrow>
        canvasPosition (onPinch (Some rect) origin ms False memo s)
          (getMousePos (Some rect) (x origin) (y origin)
             (s\<lparr>offset := initialOffset memo, zoom := initialZoom memo\<rparr>)) =
         \<lparr>x = x origin - rect_left rect, y = y origin - rect_top rect\<rparr>) \<and>
     canvasPosition (handleZoomChange (Some rect) 2 (initialWhiteboard els))
        (getMousePos (Some rect) (rect_left rect + rect_width rect / 2)
           (rect_top rect + rect_height rect / 2) (initialWhiteboard els)) =
       \<lparr>x = rect_width rect / 2, y = rect_height rect / 2\<rparr>"
proof (intro conjI impI)
  show "canvasPosition (handleZoomChange (Some rect) newZoom s)
        (getMousePos (Some rect) (rect_left rect + rect_width rect / 2)
           (rect_top rect + rect_height rect / 2) s) =
       \<lparr>x = rect_width rect / 2, y = rect_height rect / 2\<rparr>"
    using assms by (simp add: canvasPosition_def handleZoomChange_def getMousePos_def Let_def)
next
  assume "newZoom \<noteq> 0"
  with assms show "getMousePos (Some rect) (rect_left rect + rect_width rect / 2)
           (rect_top rect + rect_height rect / 2) (handleZoomChange (Some rect) newZoom s) =
        getMousePos (Some rect) (rect_left rect + rect_width rect / 2)
           (rect_top rect + rect_height rect / 2) s"
    by (simp add: handleZoomChange_def getMousePos_def Let_def)
next
  show "canvasPosition (handleWheel (Some rect) clientX clientY deltaY s)
        (getMousePos (Some rect) clientX clientY s) =
       \<lparr>x = clientX - rect_left rect, y = clientY - rect_top rect\<rparr>"
    using assms by (simp add: canvasPosition_def handleWheel_def getMousePos_def Let_def)
next
  have "min (max (1 / 10) (zoom s * d)) 5 \<noteq> 0" for d
    by (rule clamp_nonzero)
  then show "getMousePos (Some rect) clientX clientY (handleWheel (Some rect) clientX clientY deltaY s) =
       getMousePos (Some rect) clientX clientY s"
    using assms by (simp add: handleWheel_def getMousePos_def Let_def)
next
  show "canvasPosition (onWheel (Some rect) clientX clientY dx dy True s)
        (getMousePos (Some rect) clientX clientY s) =
       \<lparr>x = clientX - rect_left rect, y = clientY - rect_top rect\<rparr>"
    using assms by (simp add: canvasPosition_def onWheel_def getMousePos_def Let_def)
next
  assume "initialZoom memo \<noteq> 0"
  then show "canvasPosition (onPinch (Some rect) origin ms False memo s)
          (getMousePos (Some rect) (x origin) (y origin)
             (s\<lparr>offset := initialOffset memo, zoom := initialZoom memo\<rparr>)) =
         \<lparr>x = x origin - rect_left rect, y = y origin - rect_top rect\<rparr>"
    by (simp add: canvasPosition_def onPinch_def getMousePos_def Let_def)
next
  show "canvasPosition (handleZoomChange (Some rect) 2 (initialWhiteboard els))
        (getMousePos (Some rect) (rect_left rect + rect_width rect / 2)
           (rect_top rect + rect_height rect / 2) (initialWhiteboard els)) =
       \<lparr>x = rect_width rect / 2, y = rect_height rect / 2\<rparr>"
    by (simp add: canvasPosition_def handleZoomChange_def getMousePos_def Let_def
        initialWhiteboard_def)
qed

theorem zoom_anchor_fixed_witness:
  "zoom (initialWhiteboard []) \<noteq> 0 \<and> (2 :: real) \<noteq> 0 \<and>
   initialZoom \<lparr>initialZoom = 1, initialOffset = \<lparr>x = 0, y = 0\<rparr>\<rparr> \<noteq> 0 \<and>
   getMousePos (Some exampleRect) 400 300 (initialWhiteboard []) = \<lparr>x = 400, y = 300\<rparr> \<and>
   canvasPosition (handleZoomChange (Some exampleRect) 2 (initialWhiteboard []))
      \<lparr>x = 400, y = 300\<rparr> = \<lparr>x = 400, y = 300\<rparr> \<and>
   getMousePos (Some exampleRect) 400 300
      (handleZoomChange (Some exampleRect) 2 (initialWhiteboard [])) = \<lparr>x = 400, y = 300\<rparr> \<and>
   canvasPosition
      (onPinch (Some exampleRect) \<lparr>x = 400, y = 300\<rparr> 2 False
         \<lparr>initialZoom = 1, initialOffset = \<lparr>x = 0, y = 0\<rparr>\<rparr> (initialWhiteboard []))
      \<lparr>x = 400, y = 300\<rparr> = \<lparr>x = 400, y = 300\<rparr>"
  using zoom_anchor_fixed[where s = "initialWhiteboard []" and rect = exampleRect
      and newZoom = 2 and memo = "\<lparr>initialZoom = 1, initialOffset = \<lparr>x = 0, y = 0\<rparr>\<rparr>"
      and origin = "\<lparr>x = 400, y = 300\<rparr>" and ms = 2]
  by (simp add: initialWhiteboard_def exampleRect_def getMousePos_def)

text \<open>
  The two-finger touch handler of the earlier version ends with the pan offset: the offset
  it computes toward the pinch centre is overwritten before the state is committed.
\<close>

lemma handleTouchMove2_offset:
  assumes "isPanning s"
  shows "offset (handleTouchMove2 canvas touch1 touch2 s) =
           \<lparr>x = x touch1 - x (panStart s), y = y touch1 - y (panStart s)\<rparr>"
  using assms by (simp add: handleTouchMove2_def Let_def split: option.splits)

subsection \<open>Decay of laser elements\<close>

lemma fadeEntry_lookup_same:
  assumes "map_of acc k = Some v"
  shows "map_of (fst (fadeEntry now (acc, ch) (k, v))) k = fadedEntry now v"
proof -
  have same: "v\<lparr>opacity := opacity v\<rparr> = v" by simp
  show ?thesis
    using assms
    by (auto simp: fadeEntry_def fadedEntry_def Let_def AList.update_conv' AList.delete_conv' same)
qed

lemma fadeEntry_lookup_other:
  assumes "k' \<noteq> k"
  shows "map_of (fst (fadeEntry now (acc, ch) (k, v))) k' = map_of acc k'"
  using assms
  by (simp add: fadeEntry_def Let_def AList.update_conv' AList.delete_conv')

lemma fadeEntry_distinct:
  assumes "distinct (map fst acc)"
  shows "distinct (map fst (fst (fadeEntry now (acc, ch) kv)))"
  using assms
  by (simp add: fadeEntry_def Let_def AList.distinct_update AList.distinct_delete)

lemma fade_fold_lookup:
  assumes "distinct (map fst xs)" and "\<forall>(k', v') \<in> set xs. map_of acc k' = Some v'"
  shows "map_of (fst (foldl (fadeEntry now) (acc, ch) xs)) k =
           (case map_of xs k of None \<Rightarrow> map_of acc k | Some v \<Rightarrow> fadedEntry now v)"
  using assms
proof (induction xs arbitrary: acc ch)
  case Nil
  then show ?case by simp
next
  case (Cons kv xs)
  obtain k0 v0 where kv: "kv = (k0, v0)" by (cases kv)
  obtain acc' ch' where step: "fadeEntry now (acc, ch) (k0, v0) = (acc', ch')"
    by (cases "fadeEntry now (acc, ch) (k0, v0)")
  have k0_notin: "k0 \<notin> fst ` set xs" and dist: "distinct (map fst xs)"
    using Cons.prems(1) kv by auto
  have acc_k0: "map_of acc k0 = Some v0"
    using Cons.prems(2) kv by auto
  have other: "map_of acc' k' = map_of acc k'" if "k' \<noteq> k0" for k'
    using fadeEntry_lookup_other[OF that, of now acc ch v0] step by simp
  have same: "map_of acc' k0 = fadedEntry now v0"
    using fadeEntry_lookup_same[OF acc_k0, of now ch] step by simp
  have inv: "\<forall>(k', v') \<in> set xs. map_of acc' k' = Some v'"
  proof (clarify)
    fix k' v'
    assume mem: "(k', v') \<in> set xs"
    then have "k' \<noteq> k0" using k0_notin by force
    with other mem Cons.prems(2) show "map_of acc' k' = Some v'" by auto
  qed
  have IH: "map_of (fst (foldl (fadeEntry now) (acc', ch') xs)) k =
           (case map_of xs k of None \<Rightarrow> map_of acc' k | Some v \<Rightarrow> fadedEntry now v)"
    by (rule Cons.IH[OF dist inv])
  have xs_k0: "map_of xs k0 = None"
    using k0_notin by (simp add: map_of_eq_None_iff)
  show ?case
  proof (cases "k = k0")
    case True
    with IH xs_k0 same kv step show ?thesis by simp
  next
    case False
    with IH other[of k] kv step show ?thesis by (simp split: option.splits)
  qed
qed

lemma fade_fold_flag_stays:
  "snd (foldl (fadeEntry now) (acc, True) xs)"
proof (induction xs arbitrary: acc)
  case Nil
  then show ?case by simp
next
  case (Cons kv xs)
  have "fadeEntry now (acc, True) kv = (fst (fadeEntry now (acc, True) kv), True)"
    by (simp add: fadeEntry_def Let_def)
  with Cons.IH[of "fst (fadeEntry now (acc, True) kv)"] show ?case by simp
qed

lemma fade_fold_unchanged:
  assumes "\<not> snd (foldl (fadeEntry now) (acc, False) xs)"
  shows "fst (foldl (fadeEntry now) (acc, False) xs) = acc"
  using assms
proof (induction xs arbitrary: acc)
  case Nil
  then show ?case by simp
next
  case (Cons kv xs)
  show ?case
  proof (cases "snd (fadeEntry now (acc, False) kv)")
    case True
    then have "fadeEntry now (acc, False) kv = (fst (fadeEntry now (acc, False) kv), True)"
      by (cases "fadeEntry now (acc, False) kv") simp
    with Cons.prems fade_fold_flag_stays[of now "fst (fadeEntry now (acc, False) kv)" xs]
    show ?thesis by simp
  next
    case False
    then have eq: "fadeEntry now (acc, False) kv = (acc, False)"
      by (auto simp: fadeEntry_def Let_def split: if_splits)
    with Cons show ?thesis by simp
  qed
qed

lemma fade_fold_distinct:
  assumes "distinct (map fst acc)"
  shows "distinct (map fst (fst (foldl (fadeEntry now) (acc, ch) xs)))"
  using assms
proof (induction xs arbitrary: acc ch)
  case Nil
  then show ?case by simp
next
  case (Cons kv xs)
  obtain acc' ch' where step: "fadeEntry now (acc, ch) kv = (acc', ch')"
    by (cases "fadeEntry now (acc, ch) kv")
  then have "distinct (map fst acc')"
    using fadeEntry_distinct[OF Cons.prems, of now ch kv] by simp
  from Cons.IH[OF this] step show ?case by simp
qed

lemma laserFadeTick_lookup:
  assumes "distinct (map fst m)"
  shows "map_of (laserFadeTick now m) k =
           (case map_of m k of None \<Rightarrow> None | Some v \<Rightarrow> fadedEntry now v)"
proof -
  have inv: "\<forall>(k', v') \<in> set m. map_of m k' = Some v'"
    using assms by auto
  have full: "map_of (fst (foldl (fadeEntry now) (m, False) m)) k =
           (case map_of m k of None \<Rightarrow> None | Some v \<Rightarrow> fadedEntry now v)"
    using fade_fold_lookup[OF assms inv, of now False k] by (simp split: option.splits)
  show ?thesis
  proof (cases "snd (foldl (fadeEntry now) (m, False) m)")
    case True
    with full show ?thesis by (simp add: laserFadeTick_def Let_def)
  next
    case False
    then have "fst (foldl (fadeEntry now) (m, False) m) = m"
      by (rule fade_fold_unchanged)
    with full False show ?thesis by (simp add: laserFadeTick_def Let_def)
  qed
qed

lemma laserFadeTick_distinct:
  assumes "distinct (map fst m)"
  shows "distinct (map fst (laserFadeTick now m))"
  using assms fade_fold_distinct[OF assms, of now False m]
  by (simp add: laserFadeTick_def Let_def)

lemma fadedEntry_element: "fadedEntry now v = Some v' \<Longrightarrow> element v' = element v"
  by (auto simp: fadedEntry_def Let_def split: if_splits)

lemma laserFadeRun_Cons: "laserFadeRun (u # ticks) m = laserFadeRun ticks (laserFadeTick u m)"
  by (simp add: laserFadeRun_def)

lemma laserFadeRun_snoc: "laserFadeRun (ticks @ [t]) m = laserFadeTick t (laserFadeRun ticks m)"
  by (simp add: laserFadeRun_def)

lemma laserFadeRun_distinct:
  "distinct (map fst m) \<Longrightarrow> distinct (map fst (laserFadeRun ticks m))"
  by (induction ticks arbitrary: m) (simp_all add: laserFadeRun_def laserFadeTick_distinct)

lemma laserFadeRun_element:
  assumes "distinct (map fst m)" and "\<forall>v. map_of m k = Some v \<longrightarrow> element v = e"
  shows "\<forall>v. map_of (laserFadeRun ticks m) k = Some v \<longrightarrow> element v = e"
  using assms
proof (induction ticks arbitrary: m)
  case Nil
  then show ?case by (simp add: laserFadeRun_def)
next
  case (Cons u ticks)
  have "\<forall>v. map_of (laserFadeTick u m) k = Some v \<longrightarrow> element v = e"
    using Cons.prems fadedEntry_element
    by (auto simp: laserFadeTick_lookup split: option.splits)
  from Cons.IH[OF laserFadeTick_distinct[OF Cons.prems(1)] this]
  show ?case by (simp add: laserFadeRun_Cons)
qed

lemma laserFadeRun_present:
  assumes "distinct (map fst m)" and "map_of m k = Some v"
    and "\<forall>u \<in> set ticks. u - timestamp (element v) \<le> fadeStart + fadeDuration"
  shows "\<exists>v'. map_of (laserFadeRun ticks m) k = Some v' \<and> element v' = element v \<and>
           ((\<forall>u \<in> set ticks. u - timestamp (element v) \<le> fadeStart) \<longrightarrow> opacity v' = opacity v)"
  using assms
proof (induction ticks arbitrary: m v)
  case Nil
  then show ?case by (simp add: laserFadeRun_def)
next
  case (Cons u ticks)
  have u: "u - timestamp (element v) \<le> fadeStart + fadeDuration"
    using Cons.prems(3) by simp
  have "fadedEntry u v \<noteq> None"
    using u by (simp add: fadedEntry_def Let_def)
  then obtain v1 where v1: "fadedEntry u v = Some v1"
    by blast
  have el: "element v1 = element v"
    using v1 by (rule fadedEntry_element)
  have keep: "u - timestamp (element v) \<le> fadeStart \<Longrightarrow> v1 = v"
    using v1 by (auto simp: fadedEntry_def Let_def split: if_splits)
  have look: "map_of (laserFadeTick u m) k = Some v1"
    using Cons.prems(1,2) v1 by (simp add: laserFadeTick_lookup)
  have rest: "\<forall>w \<in> set ticks. w - timestamp (element v1) \<le> fadeStart + fadeDuration"
    using Cons.prems(3) el by simp
  from Cons.IH[OF laserFadeTick_distinct[OF Cons.prems(1)] look rest]
  obtain v' where v': "map_of (laserFadeRun ticks (laserFadeTick u m)) k = Some v'"
    "element v' = element v1"
    "(\<forall>w \<in> set ticks. w - timestamp (element v1) \<le> fadeStart) \<longrightarrow> opacity v' = opacity v1"
    by blast
  show ?case
    using v' el keep by (auto simp: laserFadeRun_Cons)
qed

lemma remote_laser_map:
  assumes "type_el e = ''laser'' \<or> tool e = Laser"
  shows "laserElements (onRemoteDrawEvent e s) =
           AList.update (id_el e) \<lparr>element = e, opacity = 1\<rparr> (laserElements s)"
  using assms by (auto simp: onRemoteDrawEvent_def)

lemma laser_seen:
  assumes "distinct (map fst m)" and "map_of m k = Some \<lparr>element = e, opacity = 1\<rparr>"
    and "\<forall>u \<in> set ticks. u \<le> t"
  shows "(t \<le> timestamp e + 1500 \<longrightarrow>
            map_of (laserFadeRun (ticks @ [t]) m) k = Some \<lparr>element = e, opacity = 1\<rparr>) \<and>
         (timestamp e + 1500 < t \<and> t \<le> timestamp e + 2500 \<longrightarrow>
            map_of (laserFadeRun (ticks @ [t]) m) k =
              Some \<lparr>element = e, opacity = 1 - (t - timestamp e - 1500) / 1000\<rparr>) \<and>
         (timestamp e + 2500 < t \<longrightarrow> map_of (laserFadeRun (ticks @ [t]) m) k = None)"
proof (intro conjI impI)
  let ?m' = "laserFadeRun ticks m"
  have d': "distinct (map fst ?m')"
    using assms(1) by (rule laserFadeRun_distinct)
  have look: "map_of (laserFadeRun (ticks @ [t]) m) k =
      (case map_of ?m' k of None \<Rightarrow> None | Some v \<Rightarrow> fadedEntry t v)"
    by (simp add: laserFadeRun_snoc laserFadeTick_lookup[OF d'])
  {
    assume t: "t \<le> timestamp e + 2500"
    then have "\<forall>u \<in> set ticks.
        u - timestamp (element \<lparr>element = e, opacity = 1\<rparr>) \<le> fadeStart + fadeDuration"
      using assms(3) by (auto simp: fadeStart_def fadeDuration_def)
    from laserFadeRun_present[OF assms(1,2) this]
    obtain v' where v': "map_of ?m' k = Some v'" "element v' = e"
      "(\<forall>u \<in> set ticks. u - timestamp e \<le> fadeStart) \<longrightarrow> opacity v' = 1"
      by auto
    have mid: "timestamp e + 1500 < t \<Longrightarrow> map_of (laserFadeRun (ticks @ [t]) m) k =
              Some \<lparr>element = e, opacity = 1 - (t - timestamp e - 1500) / 1000\<rparr>"
      using t v'(1,2) look
      by (cases v') (simp add: fadedEntry_def Let_def fadeStart_def fadeDuration_def)
    have early: "t \<le> timestamp e + 1500 \<Longrightarrow>
        map_of (laserFadeRun (ticks @ [t]) m) k = Some \<lparr>element = e, opacity = 1\<rparr>"
    proof -
      assume t1: "t \<le> timestamp e + 1500"
      then have "\<forall>u \<in> set ticks. u - timestamp e \<le> fadeStart"
        using assms(3) by (auto simp: fadeStart_def)
      with v'(3) have "opacity v' = 1" by simp
      with v'(1,2) t1 look show ?thesis
        by (cases v') (simp add: fadedEntry_def Let_def fadeStart_def fadeDuration_def)
    qed
    note mid early
  }
  note present = this
  show "map_of (laserFadeRun (ticks @ [t]) m) k = Some \<lparr>element = e, opacity = 1\<rparr>"
    if "t \<le> timestamp e + 1500"
    using that present(2) by simp
  show "map_of (laserFadeRun (ticks @ [t]) m) k =
              Some \<lparr>element = e, opacity = 1 - (t - timestamp e - 1500) / 1000\<rparr>"
    if "timestamp e + 1500 < t \<and> t \<le> timestamp e + 2500"
    using that present(1) by simp
  show "map_of (laserFadeRun (ticks @ [t]) m) k = None" if late: "timestamp e + 2500 < t"
  proof (cases "map_of ?m' k")
    case None
    with look show ?thesis by simp
  next
    case (Some v)
    have "\<forall>v. map_of m k = Some v \<longrightarrow> element v = e"
      using assms(2) by simp
    from laserFadeRun_element[OF assms(1) this, of ticks] Some have "element v = e"
      by simp
    with late Some look show ?thesis
      by (simp add: fadedEntry_def Let_def fadeStart_def fadeDuration_def)
  qed
qed

text \<open>
  Claim C2, as the code has it. A laser element with timestamp \<open>t0\<close> is put into the decay
  map with opacity 1. Observed after a decay tick at time \<open>t\<close>, no earlier tick being later
  than \<open>t\<close>: its opacity is 1 for \<open>t < t0 + 1500\<close>; it is
  \<open>1 - (t - t0 - 1500) / 1000\<close> for \<open>t\<close> from \<open>t0 + 1500\<close> to \<open>t0 + 2500\<close>, both
  included, so strictly decreasing there; and the entry is absent for \<open>t > t0 + 2500\<close>.
\<close>

theorem laser_decay_timeline:
  assumes "type_el e = ''laser'' \<or> tool e = Laser"
    and "distinct (map fst (laserElements s))"
    and "\<forall>u \<in> set ticks. u \<le> t"
    and "\<forall>u \<in> set ticks2. u \<le> t2"
  shows "(t < timestamp e + 1500 \<longrightarrow>
            map_of (laserFadeRun (ticks @ [t]) (laserElements (onRemoteDrawEvent e s))) (id_el e) =
              Some \<lparr>element = e, opacity = 1\<rparr>) \<and>
         (timestamp e + 1500 \<le> t \<and> t \<le> timestamp e + 2500 \<longrightarrow>
            map_of (laserFadeRun (ticks @ [t]) (laserElements (onRemoteDrawEvent e s))) (id_el e) =
              Some \<lparr>element = e, opacity = 1 - (t - timestamp e - 1500) / 1000\<rparr>) \<and>
         (timestamp e + 2500 < t \<longrightarrow>
            map_of (laserFadeRun (ticks @ [t]) (laserElements (onRemoteDrawEvent e s))) (id_el e) =
              None) \<and>
         (timestamp e + 1500 \<le> t \<and> t < t2 \<and> t2 \<le> timestamp e + 2500 \<longrightarrow>
            (\<exists>v v2.
               map_of (laserFadeRun (ticks @ [t]) (laserElements (onRemoteDrawEvent e s))) (id_el e) =
                 Some v \<and>
               map_of (laserFadeRun (ticks2 @ [t2]) (laserElements (onRemoteDrawEvent e s))) (id_el e) =
                 Some v2 \<and>
               opacity v2 < opacity v))"
proof -
  let ?m = "laserElements (onRemoteDrawEvent e s)"
  have m: "?m = AList.update (id_el e) \<lparr>element = e, opacity = 1\<rparr> (laserElements s)"
    using assms(1) by (rule remote_laser_map)
  have d: "distinct (map fst ?m)"
    unfolding m using assms(2) by (rule AList.distinct_update)
  have k: "map_of ?m (id_el e) = Some \<lparr>element = e, opacity = 1\<rparr>"
    unfolding m by (simp add: AList.update_conv')
  note seen = laser_seen[OF d k assms(3)]
  note seen2 = laser_seen[OF d k assms(4)]
  have formula: "map_of (laserFadeRun (ticks @ [t]) ?m) (id_el e) =
      Some \<lparr>element = e, opacity = 1 - (t - timestamp e - 1500) / 1000\<rparr>"
    if "timestamp e + 1500 \<le> t" "t \<le> timestamp e + 2500"
  proof (cases "t = timestamp e + 1500")
    case True
    with seen show ?thesis by simp
  next
    case False
    with that seen show ?thesis by simp
  qed
  have formula2: "map_of (laserFadeRun (ticks2 @ [t2]) ?m) (id_el e) =
      Some \<lparr>element = e, opacity = 1 - (t2 - timestamp e - 1500) / 1000\<rparr>"
    if "timestamp e + 1500 < t2" "t2 \<le> timestamp e + 2500"
    using that seen2 by simp
  show ?thesis
  proof (intro conjI impI)
    assume "t < timestamp e + 1500"
    with seen show "map_of (laserFadeRun (ticks @ [t]) ?m) (id_el e) =
        Some \<lparr>element = e, opacity = 1\<rparr>"
      by simp
  next
    assume "timestamp e + 1500 \<le> t \<and> t \<le> timestamp e + 2500"
    then show "map_of (laserFadeRun (ticks @ [t]) ?m) (id_el e) =
        Some \<lparr>element = e, opacity = 1 - (t - timestamp e - 1500) / 1000\<rparr>"
      using formula by simp
  next
    assume "timestamp e + 2500 < t"
    with seen show "map_of (laserFadeRun (ticks @ [t]) ?m) (id_el e) = None"
      by simp
  next
    assume a: "timestamp e + 1500 \<le> t \<and> t < t2 \<and> t2 \<le> timestamp e + 2500"
    then have f1: "map_of (laserFadeRun (ticks @ [t]) ?m) (id_el e) =
        Some \<lparr>element = e, opacity = 1 - (t - timestamp e - 1500) / 1000\<rparr>"
      using formula by simp
    from a have f2: "map_of (laserFadeRun (ticks2 @ [t2]) ?m) (id_el e) =
        Some \<lparr>element = e, opacity = 1 - (t2 - timestamp e - 1500) / 1000\<rparr>"
      using formula2 by simp
    from a have "1 - (t2 - timestamp e - 1500) / 1000 < 1 - (t - timestamp e - 1500) / 1000"
      by simp
    with f1 f2 show "\<exists>v v2.
        map_of (laserFadeRun (ticks @ [t]) ?m) (id_el e) = Some v \<and>
        map_of (laserFadeRun (ticks2 @ [t2]) ?m) (id_el e) = Some v2 \<and>
        opacity v2 < opacity v"
      by simp
  qed
qed

theorem laser_decay_timeline_witness:
  "tool (exampleElement Laser ''l'' [\<lparr>x = 1, y = 1\<rparr>]) = Laser \<and>
   distinct (map fst (laserElements (initialWhiteboard []))) \<and>
   (50 :: real) \<le> 2000 \<and> (1600 :: real) \<le> 2000 \<and> (2000 :: real) \<le> 2400 \<and>
   timestamp (exampleElement Laser ''l'' [\<lparr>x = 1, y = 1\<rparr>]) + 1500 \<le> 2000 \<and>
   map_of (laserFadeRun ([50, 1600] @ [2000])
      (laserElements (onRemoteDrawEvent (exampleElement Laser ''l'' [\<lparr>x = 1, y = 1\<rparr>])
         (initialWhiteboard [])))) ''l'' =
     Some \<lparr>element = exampleElement Laser ''l'' [\<lparr>x = 1, y = 1\<rparr>], opacity = 1 / 2\<rparr> \<and>
   (\<exists>v v2.
      map_of (laserFadeRun ([50, 1600] @ [2000])
        (laserElements (onRemoteDrawEvent (exampleElement Laser ''l'' [\<lparr>x = 1, y = 1\<rparr>])
           (initialWhiteboard [])))) ''l'' = Some v \<and>
      map_of (laserFadeRun ([50, 2000] @ [2400])
        (laserElements (onRemoteDrawEvent (exampleElement Laser ''l'' [\<lparr>x = 1, y = 1\<rparr>])
           (initialWhiteboard [])))) ''l'' = Some v2 \<and>
      opacity v2 < opacity v)"
proof -
  let ?e = "exampleElement Laser ''l'' [\<lparr>x = 1, y = 1\<rparr>]"
  have h1: "type_el ?e = ''laser'' \<or> tool ?e = Laser"
    by (simp add: exampleElement_def)
  have h2: "distinct (map fst (laserElements (initialWhiteboard [])))"
    by (simp add: initialWhiteboard_def)
  have h3: "\<forall>u \<in> set [50, 1600 :: real]. u \<le> 2000" by simp
  have h4: "\<forall>u \<in> set [50, 2000 :: real]. u \<le> 2400" by simp
  have ts: "timestamp ?e = 0" "id_el ?e = ''l''"
    by (simp_all add: exampleElement_def)
  note t = laser_decay_timeline[OF h1 h2 h3 h4]
  from t have mid: "timestamp ?e + 1500 \<le> 2000 \<and> 2000 \<le> timestamp ?e + 2500 \<longrightarrow>
      map_of (laserFadeRun ([50, 1600] @ [2000]) (laserElements (onRemoteDrawEvent ?e
        (initialWhiteboard [])))) (id_el ?e) =
      Some \<lparr>element = ?e, opacity = 1 - (2000 - timestamp ?e - 1500) / 1000\<rparr>"
    by blast
  from t have dec: "timestamp ?e + 1500 \<le> 2000 \<and> (2000 :: real) < 2400 \<and>
      2400 \<le> timestamp ?e + 2500 \<longrightarrow>
      (\<exists>v v2.
        map_of (laserFadeRun ([50, 1600] @ [2000]) (laserElements (onRemoteDrawEvent ?e
          (initialWhiteboard [])))) (id_el ?e) = Some v \<and>
        map_of (laserFadeRun ([50, 2000] @ [2400]) (laserElements (onRemoteDrawEvent ?e
          (initialWhiteboard [])))) (id_el ?e) = Some v2 \<and>
        opacity v2 < opacity v)"
    by blast
  from mid have mid': "map_of (laserFadeRun ([50, 1600] @ [2000])
      (laserElements (onRemoteDrawEvent ?e (initialWhiteboard [])))) ''l'' =
     Some \<lparr>element = ?e, opacity = 1 / 2\<rparr>"
    by (simp add: ts)
  from dec have dec': "\<exists>v v2.
        map_of (laserFadeRun ([50, 1600] @ [2000]) (laserElements (onRemoteDrawEvent ?e
          (initialWhiteboard [])))) ''l'' = Some v \<and>
        map_of (laserFadeRun ([50, 2000] @ [2400]) (laserElements (onRemoteDrawEvent ?e
          (initialWhiteboard [])))) ''l'' = Some v2 \<and>
        opacity v2 < opacity v"
    by (simp add: ts)
  have h1': "tool ?e = Laser" by (simp add: exampleElement_def)
  have h5: "timestamp ?e + 1500 \<le> 2000" by (simp add: ts)
  have h6: "(50 :: real) \<le> 2000 \<and> (1600 :: real) \<le> 2000 \<and> (2000 :: real) \<le> 2400"
    by simp
  from h1' h2 h5 h6 mid' dec' show ?thesis by blast
qed

text \<open>
  The claim as stated puts the removal at \<open>t \<ge> t0 + 2500\<close>. A tick at exactly
  \<open>t0 + 2500\<close> keeps the entry, with opacity 0: the removal test is a strict comparison.
\<close>

theorem laser_present_at_fade_end_counterexample:
  "map_of (laserFadeTick 2500
      (laserElements (onRemoteDrawEvent (exampleElement Laser ''l'' [\<lparr>x = 1, y = 1\<rparr>])
         (initialWhiteboard [])))) ''l'' =
     Some \<lparr>element = exampleElement Laser ''l'' [\<lparr>x = 1, y = 1\<rparr>], opacity = 0\<rparr>"
  by (simp add: laserFadeTick_def fadeEntry_def fadeStart_def fadeDuration_def Let_def
      onRemoteDrawEvent_def initialWhiteboard_def exampleElement_def)

subsection \<open>Laser elements stay out of the element list\<close>

lemma handleMouseUp_laser_elements:
  assumes "opt_tool options = Laser"
  shows "elements (fst (handleMouseUp options ctx now newId s)) = elements s"
  using assms by (simp add: handleMouseUp_def Let_def)

lemma handleMouseUp_laser_commit:
  assumes "opt_tool options = Laser" and "\<not> isPanning s" and "isDrawing s"
    and "currentPoints s \<noteq> []"
  shows "\<exists>ev. snd (handleMouseUp options ctx now newId s) = [ev] \<and>
           type_el ev = ''laser'' \<and> tool ev = Laser \<and> id_el ev = newId \<and>
           timestamp ev = now \<and> points ev = currentPoints s \<and>
           laserElements (fst (handleMouseUp options ctx now newId s)) =
             AList.update newId \<lparr>element = ev, opacity = 1\<rparr> (laserElements s)"
  using assms by (simp add: handleMouseUp_def Let_def)

lemma handleMouseUp_laser_as_remote:
  assumes "opt_tool options = Laser" and "\<not> isPanning s" and "isDrawing s"
    and "currentPoints s \<noteq> []"
  shows "\<exists>ev. (type_el ev = ''laser'' \<or> tool ev = Laser) \<and> id_el ev = newId \<and>
           timestamp ev = now \<and>
           laserElements (fst (handleMouseUp options ctx now newId s)) =
             laserElements (onRemoteDrawEvent ev s)"
  using handleMouseUp_laser_commit[OF assms, of ctx now newId]
  by (metis remote_laser_map)

lemma remote_laser_elements:
  assumes "type_el e = ''laser'' \<or> tool e = Laser"
  shows "elements (onRemoteDrawEvent e s) = elements s"
  using assms by (auto simp: onRemoteDrawEvent_def)

lemma laser_removed_after_fade:
  assumes "distinct (map fst m)" and "map_of m k = Some v"
    and "now - timestamp (element v) > 2500"
  shows "map_of (laserFadeTick now m) k = None"
  using assms
  by (simp add: laserFadeTick_lookup fadedEntry_def Let_def fadeStart_def fadeDuration_def)

lemma laser_opacity_zero_then_removed:
  assumes "distinct (map fst m)" and "map_of m k = Some v" and "opacity v > 0"
    and "map_of (laserFadeTick now m) k = Some v'" and "opacity v' \<le> 0" and "now < now'"
  shows "map_of (laserFadeTick now' (laserFadeTick now m)) k = None"
proof -
  have fe: "fadedEntry now v = Some v'"
    using assms(1,2,4) by (simp add: laserFadeTick_lookup)
  then have el: "element v' = element v"
    by (rule fadedEntry_element)
  have "now - timestamp (element v) \<ge> 2500"
    using fe assms(3,5)
    by (auto simp: fadedEntry_def Let_def fadeStart_def fadeDuration_def split: if_splits)
  with assms(6) el have late: "now' - timestamp (element v') > 2500"
    by simp
  have "distinct (map fst (laserFadeTick now m))"
    using assms(1) by (rule laserFadeTick_distinct)
  from this assms(4) late show ?thesis
    by (rule laser_removed_after_fade)
qed

text \<open>
  Claim C8. Laser elements are never persisted. Releasing a gesture with the laser tool
  leaves the element list as it was, and a committed laser stroke goes into the decay map
  with opacity 1; an inbound laser event leaves the element list as it was and goes into
  the decay map with opacity 1; a decay tick does not touch the element list. An entry
  older than 2500 ms is removed by the tick that sees it, and an entry that a tick has
  faded to opacity 0 is removed by every later tick.
\<close>

theorem laser_never_persisted:
  "(opt_tool options = Laser \<longrightarrow>
      elements (fst (handleMouseUp options ctx now newId s)) = elements s) \<and>
   (opt_tool options = Laser \<and> \<not> isPanning s \<and> isDrawing s \<and> currentPoints s \<noteq> [] \<longrightarrow>
      (\<exists>ev. snd (handleMouseUp options ctx now newId s) = [ev] \<and>
         type_el ev = ''laser'' \<and> tool ev = Laser \<and> id_el ev = newId \<and>
         timestamp ev = now \<and> points ev = currentPoints s \<and>
         laserElements (fst (handleMouseUp options ctx now newId s)) =
           AList.update newId \<lparr>element = ev, opacity = 1\<rparr> (laserElements s))) \<and>
   (type_el event = ''laser'' \<or> tool event = Laser \<longrightarrow>
      elements (onRemoteDrawEvent event s) = elements s \<and>
      laserElements (onRemoteDrawEvent event s) =
        AList.update (id_el event) \<lparr>element = event, opacity = 1\<rparr> (laserElements s)) \<and>
   elements (onLaserFadeTick now s) = elements s \<and>
   (distinct (map fst (laserElements s)) \<and> map_of (laserElements s) k = Some v \<and>
    now - timestamp (element v) > 2500 \<longrightarrow>
      map_of (laserElements (onLaserFadeTick now s)) k = None) \<and>
   (distinct (map fst (laserElements s)) \<and> map_of (laserElements s) k = Some v \<and>
    opacity v > 0 \<and> map_of (laserElements (onLaserFadeTick now s)) k = Some v' \<and>
    opacity v' \<le> 0 \<and> now < now' \<longrightarrow>
      map_of (laserElements (onLaserFadeTick now' (onLaserFadeTick now s))) k = None)"
proof (intro conjI impI)
  assume "opt_tool options = Laser"
  then show "elements (fst (handleMouseUp options ctx now newId s)) = elements s"
    by (rule handleMouseUp_laser_elements)
next
  assume "opt_tool options = Laser \<and> \<not> isPanning s \<and> isDrawing s \<and> currentPoints s \<noteq> []"
  then show "\<exists>ev. snd (handleMouseUp options ctx now newId s) = [ev] \<and>
         type_el ev = ''laser'' \<and> tool ev = Laser \<and> id_el ev = newId \<and>
         timestamp ev = now \<and> points ev = currentPoints s \<and>
         laserElements (fst (handleMouseUp options ctx now newId s)) =
           AList.update newId \<lparr>element = ev, opacity = 1\<rparr> (laserElements s)"
    using handleMouseUp_laser_commit by blast
next
  assume "type_el event = ''laser'' \<or> tool event = Laser"
  then show "elements (onRemoteDrawEvent event s) = elements s"
    by (rule remote_laser_elements)
next
  assume "type_el event = ''laser'' \<or> tool event = Laser"
  then show "laserElements (onRemoteDrawEvent event s) =
        AList.update (id_el event) \<lparr>element = event, opacity = 1\<rparr> (laserElements s)"
    by (rule remote_laser_map)
next
  show "elements (onLaserFadeTick now s) = elements s"
    by (simp add: onLaserFadeTick_def)
next
  assume "distinct (map fst (laserElements s)) \<and> map_of (laserElements s) k = Some v \<and>
    now - timestamp (element v) > 2500"
  then show "map_of (laserElements (onLaserFadeTick now s)) k = None"
    by (simp add: onLaserFadeTick_def laser_removed_after_fade)
next
  assume "distinct (map fst (laserElements s)) \<and> map_of (laserElements s) k = Some v \<and>
    opacity v > 0 \<and> map_of (laserElements (onLaserFadeTick now s)) k = Some v' \<and>
    opacity v' \<le> 0 \<and> now < now'"
  then show "map_of (laserElements (onLaserFadeTick now' (onLaserFadeTick now s))) k = None"
    using laser_opacity_zero_then_removed[of "laserElements s" k v now v' now']
    by (simp add: onLaserFadeTick_def)
qed

theorem laser_never_persisted_witness:
  "opt_tool (exampleOptions Laser) = Laser \<and>
   elements (fst (handleMouseUp (exampleOptions Laser) None 3000 ''n'' exampleLaserState)) =
     [exampleElement Pen ''a'' [\<lparr>x = 1, y = 1\<rparr>]] \<and>
   map fst (laserElements
      (fst (handleMouseUp (exampleOptions Laser) None 3000 ''n'' exampleLaserState))) =
     [''old'', ''n''] \<and>
   elements (onRemoteDrawEvent (exampleElement Laser ''l'' [\<lparr>x = 1, y = 1\<rparr>]) exampleLaserState) =
     [exampleElement Pen ''a'' [\<lparr>x = 1, y = 1\<rparr>]] \<and>
   map_of (laserElements (onLaserFadeTick 3000 exampleLaserState)) ''old'' = None \<and>
   map_of (laserElements (onLaserFadeTick 2500 exampleLaserState)) ''old'' =
     Some \<lparr>element = exampleElement Laser ''old'' [\<lparr>x = 2, y = 2\<rparr>], opacity = 0\<rparr> \<and>
   map_of (laserElements (onLaserFadeTick 2550 (onLaserFadeTick 2500 exampleLaserState))) ''old'' =
     None"
proof -
  let ?s = exampleLaserState
  let ?old = "\<lparr>element = exampleElement Laser ''old'' [\<lparr>x = 2, y = 2\<rparr>], opacity = 1 :: real\<rparr>"
  let ?gone = "\<lparr>element = exampleElement Laser ''old'' [\<lparr>x = 2, y = 2\<rparr>], opacity = 0 :: real\<rparr>"
  let ?ev = "exampleElement Laser ''l'' [\<lparr>x = 1, y = 1\<rparr>]"
  have tool: "opt_tool (exampleOptions Laser) = Laser"
    by (simp add: exampleOptions_def)
  have drawing: "\<not> isPanning ?s \<and> isDrawing ?s \<and> currentPoints ?s \<noteq> []"
    by (simp add: exampleLaserState_def initialWhiteboard_def)
  have els: "elements ?s = [exampleElement Pen ''a'' [\<lparr>x = 1, y = 1\<rparr>]]"
    by (simp add: exampleLaserState_def initialWhiteboard_def)
  have lm: "laserElements ?s = [(''old'', ?old)]"
    by (simp add: exampleLaserState_def initialWhiteboard_def)
  have remote: "type_el ?ev = ''laser'' \<or> tool ?ev = Laser"
    by (simp add: exampleElement_def)
  have d: "distinct (map fst (laserElements ?s))" and k: "map_of (laserElements ?s) ''old'' = Some ?old"
    by (simp_all add: lm)
  have age: "3000 - timestamp (element ?old) > 2500" and pos: "opacity ?old > 0"
    by (simp_all add: exampleElement_def)
  have zero: "map_of (laserElements (onLaserFadeTick 2500 ?s)) ''old'' = Some ?gone"
    by (simp add: onLaserFadeTick_def lm laserFadeTick_def fadeEntry_def fadeStart_def
        fadeDuration_def Let_def exampleElement_def)
  note A = laser_never_persisted[of "exampleOptions Laser" None 3000 "''n''" ?s ?ev "''old''" ?old]
  note B = laser_never_persisted[of "exampleOptions Laser" None 2500 "''n''" ?s ?ev "''old''" ?old
      ?gone 2550]
  from A tool have c1: "elements (fst (handleMouseUp (exampleOptions Laser) None 3000 ''n'' ?s)) =
      elements ?s"
    by blast
  from A tool drawing obtain ev where
    "laserElements (fst (handleMouseUp (exampleOptions Laser) None 3000 ''n'' ?s)) =
       AList.update ''n'' \<lparr>element = ev, opacity = 1\<rparr> (laserElements ?s)"
    by blast
  then have c2: "map fst (laserElements
      (fst (handleMouseUp (exampleOptions Laser) None 3000 ''n'' ?s))) = [''old'', ''n'']"
    by (simp add: lm)
  from A remote have c3: "elements (onRemoteDrawEvent ?ev ?s) = elements ?s"
    by blast
  from A d k age have c4: "map_of (laserElements (onLaserFadeTick 3000 ?s)) ''old'' = None"
    by blast
  have "opacity ?gone \<le> 0" "(2500 :: real) < 2550"
    by simp_all
  with B d k pos zero
  have c5: "map_of (laserElements (onLaserFadeTick 2550 (onLaserFadeTick 2500 ?s))) ''old'' = None"
    by blast
  from tool c1 c2 c3 c4 zero c5 show ?thesis
    by (simp only: els simp_thms)
qed

end
